theory Spec2Isabelle
  imports Complex_Main
begin

section \<open>JavaScript values as the handler sees them\<close>

text \<open>
  The request body is whatever \<^verbatim>\<open>express.json\<close> parsed, so the handler works on untyped
  JSON values. A number is an IEEE double; the only things the handler does with one are
  testing its truthiness, converting it with \<^verbatim>\<open>Number\<close> and printing it inside a template
  string, so a finite double is kept as the rational it denotes, with the special values
  beside it. A string is kept as the byte list of its (generalised) UTF-8 encoding: an
  unpaired surrogate code unit is the three bytes \<open>0xED 0xA0..0xBF 0x80..0xBF\<close>. A
  \<^verbatim>\<open>Buffer\<close> (a file's content, a response body) is a byte list too.
\<close>

datatype jsnum = NaN | PosInfinity | NegInfinity | NegZero | Fin rat

datatype jsval =
    JUndefined
  | JNull
  | JBool bool
  | JNum jsnum
  | JStr string
  | JArr "jsval list"
  | JObj "(string \<times> jsval) list"

text \<open>A thrown \<^verbatim>\<open>Error\<close>: its \<^verbatim>\<open>message\<close>, and the \<^verbatim>\<open>details\<close> property that only
  \<^verbatim>\<open>run\<close> sets.\<close>

datatype js_error = JsError (message: string) (details: "string option")

text \<open>
  The parts of the language runtime whose results depend on double arithmetic are
  parameters: printing a finite number that is not an integer of magnitude below
  \<open>2^53\<close>, and reading a number from a string (\<^verbatim>\<open>StringToNumber\<close>).
\<close>

record runtime =
  double_to_string :: "rat \<Rightarrow> string"
  string_to_number :: "string \<Rightarrow> jsnum"

definition type_error :: "string \<Rightarrow> js_error" where
  "type_error m = JsError m None"

subsection \<open>Truthiness, \<^verbatim>\<open>||\<close>, defaults and property reads\<close>

fun truthy :: "jsval \<Rightarrow> bool" where
  "truthy JUndefined = False"
| "truthy JNull = False"
| "truthy (JBool b) = b"
| "truthy (JNum n) = (n \<noteq> NaN \<and> n \<noteq> NegZero \<and> n \<noteq> Fin 0)"
| "truthy (JStr s) = (s \<noteq> [])"
| "truthy (JArr xs) = True"
| "truthy (JObj kvs) = True"

definition js_or :: "jsval \<Rightarrow> jsval \<Rightarrow> jsval" where
  "js_or a b = (if truthy a then a else b)"

text \<open>A destructuring default applies to \<^verbatim>\<open>undefined\<close> only.\<close>

definition default_to :: "jsval \<Rightarrow> jsval \<Rightarrow> jsval" where
  "default_to d v = (if v = JUndefined then d else v)"

text \<open>
  Reading a property whose name no prototype defines (\<^verbatim>\<open>images\<close>, \<^verbatim>\<open>audio\<close>, \<^verbatim>\<open>url\<close>,
  \<^verbatim>\<open>duration\<close>, ...): an object answers with its own member, every other value with
  \<^verbatim>\<open>undefined\<close>, and \<^verbatim>\<open>null\<close> and \<^verbatim>\<open>undefined\<close> throw.
\<close>

definition cannot_read :: "string \<Rightarrow> string \<Rightarrow> js_error" where
  "cannot_read what k =
     type_error (''Cannot read properties of '' @ what @ '' (reading '' @ [CHR 0x27] @ k @ [CHR 0x27] @ '')'')"

fun get_member :: "jsval \<Rightarrow> string \<Rightarrow> js_error + jsval" where
  "get_member JUndefined k = Inl (cannot_read ''undefined'' k)"
| "get_member JNull k = Inl (cannot_read ''null'' k)"
| "get_member (JObj kvs) k = Inr (case map_of kvs k of Some v \<Rightarrow> v | None \<Rightarrow> JUndefined)"
| "get_member v k = Inr JUndefined"

subsection \<open>Printing numbers\<close>

definition digit_char :: "nat \<Rightarrow> char" where
  "digit_char d = ''0123456789'' ! d"

fun show_nat :: "nat \<Rightarrow> string" where
  "show_nat n = (if n < 10 then [digit_char n] else show_nat (n div 10) @ [digit_char (n mod 10)])"

declare show_nat.simps [simp del]

definition show_int :: "int \<Rightarrow> string" where
  "show_int i = (if i < 0 then CHR ''-'' # show_nat (nat (- i)) else show_nat (nat i))"

text \<open>\<^verbatim>\<open>String(i).padStart(3, "0")\<close>\<close>

definition padStart3 :: "string \<Rightarrow> string" where
  "padStart3 s = replicate (3 - length s) CHR ''0'' @ s"

text \<open>
  \<^verbatim>\<open>Number::toString\<close> prints the shortest digits that read back as the same double,
  padded with zeros. For an integer of magnitude below \<open>2^53\<close> these are its exact
  decimal digits, because the doubles next to it are at most 1 away; from \<open>2^53\<close> on
  they need not be (\<open>2^64\<close> prints as \<^verbatim>\<open>18446744073709552000\<close>), so those, like the
  fractions, are left to the runtime.
\<close>

definition num_to_string :: "runtime \<Rightarrow> jsnum \<Rightarrow> string" where
  "num_to_string rt n =
     (case n of
        NaN \<Rightarrow> ''NaN''
      | PosInfinity \<Rightarrow> ''Infinity''
      | NegInfinity \<Rightarrow> ''-Infinity''
      | NegZero \<Rightarrow> ''0''
      | Fin q \<Rightarrow>
          (if of_int \<lfloor>q\<rfloor> = q \<and> \<bar>q\<bar> < 2 ^ 53 then show_int \<lfloor>q\<rfloor>
           else double_to_string rt q))"

subsection \<open>\<^verbatim>\<open>ToString\<close> and \<^verbatim>\<open>ToNumber\<close>\<close>

text \<open>
  No value that came out of \<^verbatim>\<open>JSON.parse\<close> is callable. So converting an object to a
  primitive throws when the object has an own member named \<^verbatim>\<open>toString\<close> (it hides
  \<^verbatim>\<open>Object.prototype.toString\<close>, and \<^verbatim>\<open>valueOf\<close> never yields a primitive), and gives
  \<^verbatim>\<open>[object Object]\<close> otherwise; an array is joined with commas, \<^verbatim>\<open>null\<close> and
  \<^verbatim>\<open>undefined\<close> elements printing as nothing.
\<close>

definition no_primitive :: js_error where
  "no_primitive = type_error ''Cannot convert object to primitive value''"

fun to_string :: "runtime \<Rightarrow> jsval \<Rightarrow> js_error + string"
  and join_elems :: "runtime \<Rightarrow> jsval list \<Rightarrow> js_error + string"
where
  "to_string rt JUndefined = Inr ''undefined''"
| "to_string rt JNull = Inr ''null''"
| "to_string rt (JBool b) = Inr (if b then ''true'' else ''false'')"
| "to_string rt (JNum n) = Inr (num_to_string rt n)"
| "to_string rt (JStr s) = Inr s"
| "to_string rt (JArr xs) = join_elems rt xs"
| "to_string rt (JObj kvs) =
     (if map_of kvs ''toString'' = None then Inr ''[object Object]'' else Inl no_primitive)"
| "join_elems rt [] = Inr []"
| "join_elems rt (x # xs) =
     (case (if x = JUndefined \<or> x = JNull then Inr [] else to_string rt x) of
        Inl e \<Rightarrow> Inl e
      | Inr s \<Rightarrow>
          (if xs = [] then Inr s
           else (case join_elems rt xs of Inl e \<Rightarrow> Inl e | Inr t \<Rightarrow> Inr (s @ '','' @ t))))"

text \<open>\<^verbatim>\<open>Number(v)\<close>\<close>

fun to_number :: "runtime \<Rightarrow> jsval \<Rightarrow> js_error + jsnum" where
  "to_number rt JUndefined = Inr NaN"
| "to_number rt JNull = Inr (Fin 0)"
| "to_number rt (JBool b) = Inr (if b then Fin 1 else Fin 0)"
| "to_number rt (JNum n) = Inr n"
| "to_number rt (JStr s) = Inr (string_to_number rt s)"
| "to_number rt v =
     (case to_string rt v of Inl e \<Rightarrow> Inl e | Inr s \<Rightarrow> Inr (string_to_number rt s))"

section \<open>The timeline description (\<^verbatim>\<open>concatContent\<close>)\<close>

record local_img =
  img_file :: string
  img_duration :: jsnum

text \<open>The \<^verbatim>\<open>for (const i of localImgs)\<close> loop, appending two lines per image.\<close>

fun concat_loop :: "runtime \<Rightarrow> local_img list \<Rightarrow> string \<Rightarrow> string" where
  "concat_loop rt [] acc = acc"
| "concat_loop rt (i # rest) acc =
     concat_loop rt rest
       ((acc @ ''file '' @ img_file i @ ''\<newline>'')
          @ ''duration '' @ num_to_string rt (img_duration i) @ ''\<newline>'')"

text \<open>
  Lines 91 to 97. \<^verbatim>\<open>localImgs[localImgs.length - 1]\<close> is \<^verbatim>\<open>undefined\<close> on an empty list,
  and reading its \<^verbatim>\<open>file\<close> throws.
\<close>

definition concatContent :: "runtime \<Rightarrow> local_img list \<Rightarrow> js_error + string" where
  "concatContent rt localImgs =
     (let c = concat_loop rt localImgs ''ffconcat version 1.0\<newline>'' in
      if localImgs = [] then Inl (cannot_read ''undefined'' ''file'')
      else Inr (c @ ''file '' @ img_file (localImgs ! (length localImgs - 1)) @ ''\<newline>''))"

subsection \<open>Reading a timeline description back\<close>

text \<open>
  The description is line oriented. An entry is a \<^verbatim>\<open>file\<close> line together with the
  \<^verbatim>\<open>duration\<close> line that immediately follows it, if one does.
\<close>

fun split_lines :: "string \<Rightarrow> string \<Rightarrow> string list" where
  "split_lines cur [] = (if cur = [] then [] else [cur])"
| "split_lines cur (c # cs) =
     (if c = CHR ''\<newline>'' then cur # split_lines [] cs else split_lines (cur @ [c]) cs)"

fun strip_prefix :: "string \<Rightarrow> string \<Rightarrow> string option" where
  "strip_prefix [] s = Some s"
| "strip_prefix (p # ps) [] = None"
| "strip_prefix (p # ps) (c # cs) = (if p = c then strip_prefix ps cs else None)"

fun read_entries :: "string list \<Rightarrow> (string \<times> string option) list" where
  "read_entries [] = []"
| "read_entries [l] = (case strip_prefix ''file '' l of Some p \<Rightarrow> [(p, None)] | None \<Rightarrow> [])"
| "read_entries (l # d # ls) =
     (case strip_prefix ''file '' l of
        None \<Rightarrow> read_entries (d # ls)
      | Some p \<Rightarrow>
          (case strip_prefix ''duration '' d of
             Some v \<Rightarrow> (p, Some v) # read_entries ls
           | None \<Rightarrow> (p, None) # read_entries (d # ls)))"

definition timeline_entries :: "string \<Rightarrow> (string \<times> string option) list" where
  "timeline_entries c = read_entries (split_lines [] c)"

section \<open>The outside world\<close>

text \<open>
  Everything the handler awaits is an effect on the outside world: the clock, the
  filesystem, the network and the encoder subprocess. The world is any function from the
  history of the effects of this request so far, and the operation asked for, to an
  outcome; the handler appends each effect with its outcome to the history. An \<^verbatim>\<open>await\<close>
  finishes before the next statement starts, so an effect and its outcome are one event.
\<close>

text \<open>What \<^verbatim>\<open>exec\<close> hands to its callback: \<^verbatim>\<open>(err, stdout, stderr)\<close>, \<^verbatim>\<open>err\<close> by its message.\<close>

datatype exec_result =
  ExecResult (exec_err: "string option") (exec_stdout: string) (exec_stderr: string)

text \<open>A response of \<^verbatim>\<open>node-fetch\<close>: the status, and what reading the body gives.\<close>

record response =
  status :: nat
  res_body :: "js_error + string"

definition ok :: "response \<Rightarrow> bool" where
  "ok res = (200 \<le> status res \<and> status res < 300)"

record fetch_init =
  init_method :: string
  init_headers :: "(string \<times> string) list"
  init_body :: string

datatype event =
    DateNow int
  | Mkdir string "js_error option"
  | Fetch jsval "fetch_init option" "js_error + response"
  | WriteFile string string "js_error option"
  | ReadFile string "js_error + string"
  | Exec string exec_result
  | ConsoleError js_error

record env =
  date_now :: "event list \<Rightarrow> int"
  fs_mkdir :: "event list \<Rightarrow> string \<Rightarrow> js_error option"
  net_fetch :: "event list \<Rightarrow> jsval \<Rightarrow> fetch_init option \<Rightarrow> js_error + response"
  fs_writeFile :: "event list \<Rightarrow> string \<Rightarrow> string \<Rightarrow> js_error option"
  fs_readFile :: "event list \<Rightarrow> string \<Rightarrow> js_error + string"
  child_exec :: "event list \<Rightarrow> string \<Rightarrow> exec_result"

type_synonym 'a proc = "event list \<Rightarrow> (js_error + 'a) \<times> event list"

definition await :: "'a proc \<Rightarrow> ('a \<Rightarrow> 'b proc) \<Rightarrow> 'b proc" where
  "await m f tr = (case m tr of (Inl e, tr') \<Rightarrow> (Inl e, tr') | (Inr a, tr') \<Rightarrow> f a tr')"

definition lift :: "js_error + 'a \<Rightarrow> 'a proc" where
  "lift r tr = (r, tr)"

definition throw :: "js_error \<Rightarrow> 'a proc" where
  "throw e = lift (Inl e)"

definition resolve :: "'a \<Rightarrow> 'a proc" where
  "resolve a = lift (Inr a)"

definition and_then :: "js_error + 'a \<Rightarrow> ('a \<Rightarrow> js_error + 'b) \<Rightarrow> js_error + 'b" where
  "and_then r f = (case r of Inl e \<Rightarrow> Inl e | Inr a \<Rightarrow> f a)"

definition Date_now :: "env \<Rightarrow> int proc" where
  "Date_now env tr = (let t = date_now env tr in (Inr t, tr @ [DateNow t]))"

definition mkdir :: "env \<Rightarrow> string \<Rightarrow> unit proc" where
  "mkdir env path tr =
     (let r = fs_mkdir env tr path
      in ((case r of Some e \<Rightarrow> Inl e | None \<Rightarrow> Inr ()), tr @ [Mkdir path r]))"

definition fetch :: "env \<Rightarrow> jsval \<Rightarrow> fetch_init option \<Rightarrow> response proc" where
  "fetch env url init tr = (let r = net_fetch env tr url init in (r, tr @ [Fetch url init r]))"

definition writeFile :: "env \<Rightarrow> string \<Rightarrow> string \<Rightarrow> unit proc" where
  "writeFile env path content tr =
     (let r = fs_writeFile env tr path content
      in ((case r of Some e \<Rightarrow> Inl e | None \<Rightarrow> Inr ()), tr @ [WriteFile path content r]))"

definition readFile :: "env \<Rightarrow> string \<Rightarrow> string proc" where
  "readFile env path tr = (let r = fs_readFile env tr path in (r, tr @ [ReadFile path r]))"

text \<open>Lines 27 to 37: a failed command rejects with \<^verbatim>\<open>err\<close>, its \<^verbatim>\<open>details\<close> set to the
  captured stderr.\<close>

definition run :: "env \<Rightarrow> string \<Rightarrow> string proc" where
  "run env cmd tr =
     (let r = child_exec env tr cmd
      in ((case exec_err r of
             Some m \<Rightarrow> Inl (JsError m (Some (exec_stderr r)))
           | None \<Rightarrow> Inr (exec_stdout r)),
          tr @ [Exec cmd r]))"

text \<open>Lines 39 to 45.\<close>

definition downloadToFile :: "runtime \<Rightarrow> env \<Rightarrow> jsval \<Rightarrow> string \<Rightarrow> string proc" where
  "downloadToFile rt env url outPath =
     await (fetch env url None) (\<lambda>res.
       if \<not> ok res then
         await (lift (to_string rt url)) (\<lambda>u.
           throw (JsError (''Download failed: '' @ u @ '' -> '' @ show_nat (status res)) None))
       else
         await (lift (res_body res)) (\<lambda>buf.
         await (writeFile env outPath buf) (\<lambda>_.
         resolve outPath)))"

section \<open>The handler of \<^verbatim>\<open>POST /create-video\<close>\<close>

text \<open>The process environment, read once per request. \<^verbatim>\<open>AUTH_TOKEN\<close> is
  \<^verbatim>\<open>process.env.AUTH_TOKEN || ""\<close>.\<close>

record config =
  AUTH_TOKEN :: string
  SUPABASE_URL :: "string option"
  SUPABASE_BUCKET_VIDEOS :: "string option"
  SUPABASE_SERVICE_ROLE_KEY :: "string option"

record request =
  headers :: "(string \<times> string) list"
  body :: jsval

record reply =
  status_code :: nat
  json :: jsval

text \<open>Lines 54 to 61, the destructured body with its defaults.\<close>

record params =
  images :: jsval
  audio :: jsval
  outputPath :: jsval
  width :: jsval
  height :: jsval
  fps :: jsval

definition destructure :: "jsval \<Rightarrow> js_error + params" where
  "destructure b =
     and_then (get_member b ''images'') (\<lambda>i.
     and_then (get_member b ''audio'') (\<lambda>a.
     and_then (get_member b ''outputPath'') (\<lambda>p.
     and_then (get_member b ''width'') (\<lambda>w.
     and_then (get_member b ''height'') (\<lambda>h.
     and_then (get_member b ''fps'') (\<lambda>f.
       Inr \<lparr>images = default_to (JArr []) i,
            audio = a,
            outputPath = default_to (JStr ''stories/output.mp4'') p,
            width = default_to (JNum (Fin 1920)) w,
            height = default_to (JNum (Fin 1080)) h,
            fps = default_to (JNum (Fin 25)) f\<rparr>))))))"

text \<open>\<^verbatim>\<open>path.join\<close> on a directory without a trailing slash and a plain file name: the
  two joined by a slash, which normalisation leaves as it is.\<close>

definition path_join :: "string \<Rightarrow> string \<Rightarrow> string" where
  "path_join dir name = dir @ ''/'' @ name"

text \<open>Line 78.\<close>

definition image_duration :: "runtime \<Rightarrow> jsval \<Rightarrow> js_error + jsnum" where
  "image_duration rt img =
     and_then (get_member img ''duration'') (\<lambda>d. to_number rt (js_or d (JNum (Fin 3))))"

text \<open>Lines 75 to 82: the loop over \<^verbatim>\<open>images\<close>, with its index and \<^verbatim>\<open>localImgs\<close>.\<close>

fun download_images ::
  "runtime \<Rightarrow> env \<Rightarrow> string \<Rightarrow> jsval list \<Rightarrow> nat \<Rightarrow> local_img list \<Rightarrow> local_img list proc"
where
  "download_images rt env workDir [] i localImgs = resolve localImgs"
| "download_images rt env workDir (img # rest) i localImgs =
     await (lift (get_member img ''url'')) (\<lambda>imgUrl.
     await (lift (image_duration rt img)) (\<lambda>dur.
     let out = path_join workDir (''img_'' @ padStart3 (show_nat i) @ ''.png'') in
     await (downloadToFile rt env imgUrl out) (\<lambda>_.
     download_images rt env workDir rest (Suc i)
       (localImgs @ [\<lparr>img_file = out, img_duration = dur\<rparr>]))))"

text \<open>Lines 103 and 104, and line 108: the two encoder command lines.\<close>

definition video_filter :: "runtime \<Rightarrow> jsval \<Rightarrow> jsval \<Rightarrow> js_error + string" where
  "video_filter rt w h =
     and_then (to_string rt w) (\<lambda>ws.
     and_then (to_string rt h) (\<lambda>hs.
       Inr (''scale='' @ ws @ '':'' @ hs @ '':force_original_aspect_ratio=decrease,pad=''
            @ ws @ '':'' @ hs @ '':(ow-iw)/2:(oh-ih)/2,format=yuv420p'')))"

definition render_cmd :: "string \<Rightarrow> string \<Rightarrow> string \<Rightarrow> string" where
  \<open>render_cmd concatTxt vf videoFile =
     ''ffmpeg -y -f concat -safe 0 -i "'' @ concatTxt @ ''" -vf "'' @ vf
       @ ''" -pix_fmt yuv420p -c:v libx264 -vsync vfr "'' @ videoFile @ ''"''\<close>

definition mux_cmd :: "string \<Rightarrow> string \<Rightarrow> string \<Rightarrow> string" where
  \<open>mux_cmd videoFile audioFile finalFile =
     ''ffmpeg -y -i "'' @ videoFile @ ''" -i "'' @ audioFile
       @ ''" -c:v copy -c:a aac -shortest "'' @ finalFile @ ''"''\<close>

subsection \<open>\<^verbatim>\<open>encodeURIComponent\<close>\<close>

text \<open>
  Every byte of the UTF-8 encoding that is not an unreserved character becomes \<^verbatim>\<open>%XX\<close>;
  a string with an unpaired surrogate throws \<^verbatim>\<open>URIError\<close>.
\<close>

definition unreserved :: "char \<Rightarrow> bool" where
  "unreserved c =
     (c \<in> set (''ABCDEFGHIJKLMNOPQRSTUVWXYZabcdefghijklmnopqrstuvwxyz0123456789-_.!~*()''
               @ [CHR 0x27]))"

definition hex_digit :: "nat \<Rightarrow> char" where
  "hex_digit n = ''0123456789ABCDEF'' ! n"

definition percent :: "char \<Rightarrow> string" where
  "percent c =
     (if unreserved c then [c]
      else [CHR ''%'', hex_digit (of_char c div 16), hex_digit (of_char c mod 16)])"

fun lone_surrogate :: "string \<Rightarrow> bool" where
  "lone_surrogate (a # b # cs) =
     ((of_char a = (0xED :: nat) \<and> (0xA0 :: nat) \<le> of_char b \<and> of_char b \<le> (0xBF :: nat))
      \<or> lone_surrogate (b # cs))"
| "lone_surrogate cs = False"

definition encodeURIComponent :: "string \<Rightarrow> js_error + string" where
  "encodeURIComponent s =
     (if lone_surrogate s then Inl (JsError ''URI malformed'' None)
      else Inr (concat (map percent s)))"

subsection \<open>\<^verbatim>\<open>res.json\<close>\<close>

text \<open>
  \<^verbatim>\<open>res.json(v)\<close> sends \<^verbatim>\<open>JSON.stringify(v)\<close>. The body of a reply is kept as the value
  a client reads from that text: a number that is not finite is written \<^verbatim>\<open>null\<close>,
  negative zero is written \<^verbatim>\<open>0\<close>, a member that is \<^verbatim>\<open>undefined\<close> is left out, and
  an \<^verbatim>\<open>undefined\<close> element of an array is written \<^verbatim>\<open>null\<close>. (No value here is
  callable, so no \<^verbatim>\<open>toJSON\<close> is called.)
\<close>

fun to_json :: "jsval \<Rightarrow> jsval"
  and to_json_elems :: "jsval list \<Rightarrow> jsval list"
  and to_json_members :: "(string \<times> jsval) list \<Rightarrow> (string \<times> jsval) list"
where
  "to_json JUndefined = JUndefined"
| "to_json JNull = JNull"
| "to_json (JBool b) = JBool b"
| "to_json (JNum n) =
     (case n of
        NaN \<Rightarrow> JNull
      | PosInfinity \<Rightarrow> JNull
      | NegInfinity \<Rightarrow> JNull
      | NegZero \<Rightarrow> JNum (Fin 0)
      | Fin q \<Rightarrow> JNum (Fin q))"
| "to_json (JStr s) = JStr s"
| "to_json (JArr xs) = JArr (to_json_elems xs)"
| "to_json (JObj kvs) = JObj (to_json_members kvs)"
| "to_json_elems [] = []"
| "to_json_elems (x # xs) = (if x = JUndefined then JNull else to_json x) # to_json_elems xs"
| "to_json_members [] = []"
| "to_json_members (kv # kvs) =
     (if snd kv = JUndefined then to_json_members kvs
      else (fst kv, to_json (snd kv)) # to_json_members kvs)"

text \<open>\<^verbatim>\<open>res.status(code).json(v)\<close>\<close>

definition res_json :: "nat \<Rightarrow> jsval \<Rightarrow> reply" where
  "res_json code v = \<lparr>status_code = code, json = to_json v\<rparr>"

text \<open>A value that is written as it is: no \<^verbatim>\<open>undefined\<close>, no number that is not finite,
  no negative zero.\<close>

fun json_plain :: "jsval \<Rightarrow> bool" where
  "json_plain JUndefined = False"
| "json_plain JNull = True"
| "json_plain (JBool b) = True"
| "json_plain (JNum n) = (case n of Fin q \<Rightarrow> True | _ \<Rightarrow> False)"
| "json_plain (JStr s) = True"
| "json_plain (JArr xs) = list_all json_plain xs"
| "json_plain (JObj kvs) = list_all (\<lambda>kv. json_plain (snd kv)) kvs"

subsection \<open>Publishing (lines 111 to 137)\<close>

definition bucket_name :: "config \<Rightarrow> string" where
  "bucket_name cfg =
     (case SUPABASE_BUCKET_VIDEOS cfg of
        None \<Rightarrow> ''videos''
      | Some b \<Rightarrow> if b = [] then ''videos'' else b)"

definition object_url :: "runtime \<Rightarrow> string \<Rightarrow> string \<Rightarrow> string \<Rightarrow> jsval \<Rightarrow> js_error + string" where
  "object_url rt base segment bucket key =
     and_then (encodeURIComponent bucket) (\<lambda>b.
     and_then (to_string rt key) (\<lambda>k.
     and_then (encodeURIComponent k) (\<lambda>k'.
       Inr (base @ segment @ b @ ''/'' @ k'))))"

definition uploadUrl :: "runtime \<Rightarrow> config \<Rightarrow> string \<Rightarrow> jsval \<Rightarrow> js_error + string" where
  "uploadUrl rt cfg base key = object_url rt base ''/storage/v1/object/'' (bucket_name cfg) key"

definition publicUrl :: "runtime \<Rightarrow> config \<Rightarrow> string \<Rightarrow> jsval \<Rightarrow> js_error + string" where
  "publicUrl rt cfg base key =
     object_url rt base ''/storage/v1/object/public/'' (bucket_name cfg) key"

definition upload_init :: "string \<Rightarrow> string \<Rightarrow> fetch_init" where
  "upload_init key fileBuffer =
     \<lparr>init_method = ''POST'',
      init_headers =
        [(''Authorization'', ''Bearer '' @ key),
         (''Content-Type'', ''video/mp4''),
         (''x-upsert'', ''true'')],
      init_body = fileBuffer\<rparr>"

text \<open>A variable of \<^verbatim>\<open>process.env\<close> is a string or \<^verbatim>\<open>undefined\<close>; \<^verbatim>\<open>!v\<close> holds of
  \<^verbatim>\<open>undefined\<close> and of the empty string.\<close>

definition absent :: "string option \<Rightarrow> bool" where
  "absent v = (v = None \<or> v = Some [])"

definition missing_config :: js_error where
  "missing_config = JsError ''Missing SUPABASE_URL or SUPABASE_SERVICE_ROLE_KEY'' None"

definition publish ::
  "runtime \<Rightarrow> config \<Rightarrow> env \<Rightarrow> jsval \<Rightarrow> string \<Rightarrow> (string \<times> string) proc"
where
  "publish rt cfg env outPath finalFile =
     (case (SUPABASE_URL cfg, SUPABASE_SERVICE_ROLE_KEY cfg) of
        (Some base, Some key) \<Rightarrow>
          if base = [] \<or> key = [] then
            throw missing_config
          else
            await (readFile env finalFile) (\<lambda>fileBuffer.
            await (lift (uploadUrl rt cfg base outPath)) (\<lambda>upUrl.
            await (fetch env (JStr upUrl) (Some (upload_init key fileBuffer))) (\<lambda>upRes.
              if \<not> ok upRes then
                await (lift (res_body upRes)) (\<lambda>txt.
                  throw (JsError (''Supabase upload failed: '' @ show_nat (status upRes)
                                  @ '' '' @ txt) None))
              else
                await (lift (publicUrl rt cfg base outPath)) (\<lambda>pubUrl.
                resolve (pubUrl, fileBuffer)))))
      | _ \<Rightarrow> throw missing_config)"

subsection \<open>The pipeline (lines 70 to 147)\<close>

text \<open>Line 71. \<^verbatim>\<open>Date.now()\<close> is an integer number of milliseconds of magnitude at most
  \<open>8.64 * 10^15\<close>, below \<open>2^53\<close>, so it prints as its decimal digits.\<close>

definition workDir_of :: "int \<Rightarrow> string" where
  "workDir_of t = ''/tmp/work-'' @ show_int t"

text \<open>Lines 70 to 86: the workspace, then the images, then the audio track.\<close>

definition fetch_assets ::
  "runtime \<Rightarrow> env \<Rightarrow> jsval list \<Rightarrow> jsval \<Rightarrow> (string \<times> local_img list \<times> string) proc"
where
  "fetch_assets rt env imgs audioUrl =
     await (Date_now env) (\<lambda>t.
     let workDir = workDir_of t in
     await (mkdir env workDir) (\<lambda>_.
     await (download_images rt env workDir imgs 0 []) (\<lambda>localImgs.
     let audioFile = path_join workDir ''audio.mp3'' in
     await (downloadToFile rt env audioUrl audioFile) (\<lambda>_.
     resolve (workDir, localImgs, audioFile)))))"

text \<open>Lines 88 to 108: the timeline file and the two encoder passes.\<close>

definition encode ::
  "runtime \<Rightarrow> env \<Rightarrow> string \<Rightarrow> local_img list \<Rightarrow> string \<Rightarrow> jsval \<Rightarrow> jsval \<Rightarrow> string proc"
where
  "encode rt env workDir localImgs audioFile w h =
     (let concatTxt = path_join workDir ''list.txt'' in
      await (lift (concatContent rt localImgs)) (\<lambda>content.
      await (writeFile env concatTxt content) (\<lambda>_.
      let videoFile = path_join workDir ''video.mp4'' in
      await (lift (video_filter rt w h)) (\<lambda>vf.
      await (run env (render_cmd concatTxt vf videoFile)) (\<lambda>_.
      let finalFile = path_join workDir ''final.mp4'' in
      await (run env (mux_cmd videoFile audioFile finalFile)) (\<lambda>_.
      resolve finalFile))))))"

text \<open>Lines 139 to 147.\<close>

definition success_reply :: "params \<Rightarrow> nat \<Rightarrow> string \<Rightarrow> string \<Rightarrow> reply" where
  "success_reply p frames pubUrl fileBuffer =
     res_json 200
       (JObj
         [(''success'', JBool True),
          (''url'', JStr pubUrl),
          (''size'', JNum (Fin (of_nat (length fileBuffer)))),
          (''frames'', JNum (Fin (of_nat frames))),
          (''fps'', fps p),
          (''width'', width p),
          (''height'', height p)])"

definition pipeline :: "runtime \<Rightarrow> config \<Rightarrow> env \<Rightarrow> jsval list \<Rightarrow> params \<Rightarrow> reply proc" where
  "pipeline rt cfg env imgs p =
     await (fetch_assets rt env imgs (audio p)) (\<lambda>(workDir, localImgs, audioFile).
     await (encode rt env workDir localImgs audioFile (width p) (height p)) (\<lambda>finalFile.
     await (publish rt cfg env (outputPath p) finalFile) (\<lambda>(pubUrl, fileBuffer).
     resolve (success_reply p (length imgs) pubUrl fileBuffer))))"

subsection \<open>The route (lines 47 to 153)\<close>

definition error_reply :: "nat \<Rightarrow> string \<Rightarrow> reply" where
  "error_reply code msg = res_json code (JObj [(''error'', JStr msg)])"

definition authorised :: "config \<Rightarrow> request \<Rightarrow> bool" where
  "authorised cfg req =
     (AUTH_TOKEN cfg = [] \<or> map_of (headers req) ''x-auth-token'' = Some (AUTH_TOKEN cfg))"

definition handler_try :: "runtime \<Rightarrow> config \<Rightarrow> env \<Rightarrow> request \<Rightarrow> reply proc" where
  "handler_try rt cfg env req =
     (if \<not> authorised cfg req then resolve (error_reply 401 ''Unauthorized'')
      else
        await (lift (destructure (js_or (body req) (JObj [])))) (\<lambda>p.
          case images p of
            JArr imgs \<Rightarrow>
              if length imgs = 0 then resolve (error_reply 400 ''images[] required'')
              else if \<not> truthy (audio p) then resolve (error_reply 400 ''audio url required'')
              else pipeline rt cfg env imgs p
          | _ \<Rightarrow> resolve (error_reply 400 ''images[] required'')))"

text \<open>The \<^verbatim>\<open>catch\<close>: log, then answer 500 with \<^verbatim>\<open>err.message\<close> and \<^verbatim>\<open>err.details || ""\<close>.\<close>

definition failure_reply :: "js_error \<Rightarrow> reply" where
  "failure_reply err =
     res_json 500
       (JObj
         [(''error'', JStr (message err)),
          (''details'', JStr (case details err of None \<Rightarrow> [] | Some d \<Rightarrow> d))])"

definition create_video :: "runtime \<Rightarrow> config \<Rightarrow> env \<Rightarrow> request \<Rightarrow> reply \<times> event list" where
  "create_video rt cfg env req =
     (case handler_try rt cfg env req [] of
        (Inr r, tr) \<Rightarrow> (r, tr)
      | (Inl err, tr) \<Rightarrow> (failure_reply err, tr @ [ConsoleError err]))"

text \<open>A request that gets past the token check and validation (lines 49 to 68).\<close>

definition accepted :: "config \<Rightarrow> request \<Rightarrow> bool" where
  "accepted cfg req =
     (authorised cfg req \<and>
      (case destructure (js_or (body req) (JObj [])) of
         Inl e \<Rightarrow> False
       | Inr p \<Rightarrow>
           (case images p of
              JArr imgs \<Rightarrow> imgs \<noteq> [] \<and> truthy (audio p)
            | _ \<Rightarrow> False)))"

section \<open>Reading a history\<close>

text \<open>
  The error the handler throws on an event, if it throws one: a rejected effect throws
  its own error; a download that is answered with a failure status throws
  \<^verbatim>\<open>Download failed\<close>, an upload that is \<^verbatim>\<open>Supabase upload failed\<close>.
\<close>

fun thrown :: "runtime \<Rightarrow> event \<Rightarrow> js_error option" where
  "thrown rt (DateNow t) = None"
| "thrown rt (Mkdir path r) = r"
| "thrown rt (Fetch url init (Inl e)) = Some e"
| "thrown rt (Fetch url None (Inr res)) =
     (if \<not> ok res then
        (case to_string rt url of
           Inl e \<Rightarrow> Some e
         | Inr u \<Rightarrow>
             Some (JsError (''Download failed: '' @ u @ '' -> '' @ show_nat (status res)) None))
      else (case res_body res of Inl e \<Rightarrow> Some e | Inr buf \<Rightarrow> None))"
| "thrown rt (Fetch url (Some i) (Inr res)) =
     (if \<not> ok res then
        (case res_body res of
           Inl e \<Rightarrow> Some e
         | Inr txt \<Rightarrow>
             Some (JsError (''Supabase upload failed: '' @ show_nat (status res) @ '' '' @ txt)
                     None))
      else None)"
| "thrown rt (WriteFile path content r) = r"
| "thrown rt (ReadFile path r) = (case r of Inl e \<Rightarrow> Some e | Inr buf \<Rightarrow> None)"
| "thrown rt (Exec cmd r) =
     (case exec_err r of Some m \<Rightarrow> Some (JsError m (Some (exec_stderr r))) | None \<Rightarrow> None)"
| "thrown rt (ConsoleError e) = None"

fun is_exec :: "event \<Rightarrow> bool" where
  "is_exec (Exec cmd r) = True"
| "is_exec e = False"

text \<open>An upload is the fetch that carries an \<^verbatim>\<open>init\<close>; a download is one that does not.\<close>

fun is_upload :: "event \<Rightarrow> bool" where
  "is_upload (Fetch url (Some i) r) = True"
| "is_upload e = False"

fun downloads :: "event list \<Rightarrow> jsval list" where
  "downloads [] = []"
| "downloads (Fetch url None r # evs) = url # downloads evs"
| "downloads (e # evs) = downloads evs"

text \<open>The workspace of a request: the directory it creates.\<close>

fun workspace_of :: "event list \<Rightarrow> string option" where
  "workspace_of [] = None"
| "workspace_of (Mkdir path r # evs) = Some path"
| "workspace_of (e # evs) = workspace_of evs"

text \<open>The stage of the pipeline an event belongs to: preparing the workspace and the
  assets, encoding, publishing, and the \<^verbatim>\<open>catch\<close>.\<close>

fun stage :: "event \<Rightarrow> nat" where
  "stage (Exec cmd r) = 1"
| "stage (ReadFile path r) = 2"
| "stage (Fetch url (Some i) r) = 2"
| "stage (ConsoleError e) = 3"
| "stage e = 0"

text \<open>A history on which the handler throws nowhere.\<close>

definition clean :: "runtime \<Rightarrow> event list \<Rightarrow> bool" where
  "clean rt evs = list_all (\<lambda>e. thrown rt e = None) evs"

text \<open>Fail fast: the handler throws on no event, or on the last one, and then that error
  is the result.\<close>

definition fail_fast :: "runtime \<Rightarrow> js_error + 'a \<Rightarrow> event list \<Rightarrow> bool" where
  "fail_fast rt r evs =
     (clean rt evs \<or>
      (\<exists>pre e err. evs = pre @ [e] \<and> clean rt pre \<and> thrown rt e = Some err \<and> r = Inl err))"

text \<open>\<^verbatim>\<open>images[i].url\<close>, where reading it does not throw.\<close>

definition url_of :: "jsval \<Rightarrow> jsval" where
  "url_of img = (case get_member img ''url'' of Inr u \<Rightarrow> u | Inl e \<Rightarrow> JUndefined)"


section \<open>Sample inputs\<close>

text \<open>A runtime, for running the model on concrete requests.\<close>

definition sample_runtime :: runtime where
  "sample_runtime =
     \<lparr>double_to_string = (\<lambda>q. ''0.5''),
      string_to_number = (\<lambda>s. if s = ''2'' then Fin 2 else NaN)\<rparr>"

definition sample_localImgs :: "local_img list" where
  "sample_localImgs =
     [\<lparr>img_file = ''/tmp/work-1/img_000.png'', img_duration = Fin 2\<rparr>,
      \<lparr>img_file = ''/tmp/work-1/img_001.png'', img_duration = NaN\<rparr>]"

text \<open>A world in which everything succeeds, one in which the encoder fails, and a request
  with two images, the second without a duration.\<close>

definition sample_response :: response where
  "sample_response = \<lparr>status = 200, res_body = Inr ''bytes''\<rparr>"

definition sample_env :: env where
  "sample_env =
     \<lparr>date_now = (\<lambda>tr. 1700000000000),
      fs_mkdir = (\<lambda>tr path. None),
      net_fetch = (\<lambda>tr url init. Inr sample_response),
      fs_writeFile = (\<lambda>tr path content. None),
      fs_readFile = (\<lambda>tr path. Inr ''movie''),
      child_exec = (\<lambda>tr cmd. ExecResult None [] [])\<rparr>"

definition broken_encoder_env :: env where
  "broken_encoder_env =
     sample_env\<lparr>child_exec := (\<lambda>tr cmd. ExecResult (Some ''Command failed'') [] ''Invalid data'')\<rparr>"

definition offline_env :: env where
  "offline_env =
     sample_env\<lparr>net_fetch := (\<lambda>tr url init. Inr \<lparr>status = 404, res_body = Inr ''Not Found''\<rparr>)\<rparr>"

definition sample_config :: config where
  "sample_config =
     \<lparr>AUTH_TOKEN = [],
      SUPABASE_URL = Some ''https://db.example'',
      SUPABASE_BUCKET_VIDEOS = None,
      SUPABASE_SERVICE_ROLE_KEY = Some ''key''\<rparr>"

definition sample_request :: request where
  "sample_request =
     \<lparr>headers = [],
      body = JObj
        [(''images'', JArr
            [JObj [(''url'', JStr ''http://a/1.png''), (''duration'', JNum (Fin 2))],
             JObj [(''url'', JStr ''http://a/2.png'')]]),
         (''audio'', JStr ''http://a/a.mp3'')]\<rparr>"


definition sample_images :: "jsval list" where
  "sample_images =
     [JObj [(''url'', JStr ''http://a/1.png''), (''duration'', JNum (Fin 2))],
      JObj [(''url'', JStr ''http://a/2.png'')]]"

definition sample_params :: params where
  "sample_params =
     \<lparr>images = JArr sample_images,
      audio = JStr ''http://a/a.mp3'',
      outputPath = JStr ''stories/output.mp4'',
      width = JNum (Fin 1920),
      height = JNum (Fin 1080),
      fps = JNum (Fin 25)\<rparr>"

definition bare_request :: request where
  "bare_request = \<lparr>headers = [], body = JObj []\<rparr>"

definition token_config :: config where
  "token_config = sample_config\<lparr>AUTH_TOKEN := ''secret''\<rparr>"

definition keyless_config :: config where
  "keyless_config = sample_config\<lparr>SUPABASE_SERVICE_ROLE_KEY := None\<rparr>"

definition sample_filter :: string where
  "sample_filter =
     ''scale=1920:1080:force_original_aspect_ratio=decrease,pad=1920:1080:(ow-iw)/2:(oh-ih)/2,format=yuv420p''"

definition sample_prepared :: "event list" where
  "sample_prepared =
     [DateNow 1700000000000,
      Mkdir ''/tmp/work-1700000000000'' None,
      Fetch (JStr ''http://a/1.png'') None (Inr sample_response),
      WriteFile ''/tmp/work-1700000000000/img_000.png'' ''bytes'' None,
      Fetch (JStr ''http://a/2.png'') None (Inr sample_response),
      WriteFile ''/tmp/work-1700000000000/img_001.png'' ''bytes'' None,
      Fetch (JStr ''http://a/a.mp3'') None (Inr sample_response),
      WriteFile ''/tmp/work-1700000000000/audio.mp3'' ''bytes'' None,
      WriteFile ''/tmp/work-1700000000000/list.txt''
        ''ffconcat version 1.0\<newline>file /tmp/work-1700000000000/img_000.png\<newline>duration 2\<newline>file /tmp/work-1700000000000/img_001.png\<newline>duration 3\<newline>file /tmp/work-1700000000000/img_001.png\<newline>''
        None]"

definition sample_render :: string where
  "sample_render =
     render_cmd ''/tmp/work-1700000000000/list.txt'' sample_filter
       ''/tmp/work-1700000000000/video.mp4''"

definition sample_mux :: string where
  "sample_mux =
     mux_cmd ''/tmp/work-1700000000000/video.mp4'' ''/tmp/work-1700000000000/audio.mp3''
       ''/tmp/work-1700000000000/final.mp4''"

definition other_request :: request where
  "other_request =
     \<lparr>headers = [],
      body = JObj
        [(''images'', JArr [JObj [(''url'', JStr ''http://b/9.png'')]]),
         (''audio'', JStr ''http://b/b.mp3'')]\<rparr>"

text \<open>Images that ask for a duration of zero, and for one that is no number.\<close>

definition zero_duration_image :: jsval where
  "zero_duration_image = JObj [(''url'', JStr ''http://a/1.png''), (''duration'', JNum (Fin 0))]"

definition text_duration_image :: jsval where
  "text_duration_image = JObj [(''url'', JStr ''http://a/2.png''), (''duration'', JStr ''soon'')]"

text \<open>
  Modelled from the spec: the object storage is not part of the repository; the spec asks
  of it upsert semantics (overwrite if exists). In this world a write to a url that was
  written before is rejected with 409 unless it carries \<^verbatim>\<open>x-upsert: true\<close>, and
  accepted otherwise.
\<close>

fun wrote :: "jsval \<Rightarrow> event \<Rightarrow> bool" where
  "wrote url (Fetch u (Some i) (Inr res)) = (u = url \<and> ok res)"
| "wrote url e = False"

definition storage_env :: env where
  "storage_env =
     sample_env\<lparr>net_fetch := (\<lambda>h url init.
       case init of
         None \<Rightarrow> Inr sample_response
       | Some i \<Rightarrow>
           if list_ex (wrote url) h \<and> map_of (init_headers i) ''x-upsert'' \<noteq> Some ''true''
           then Inr \<lparr>status = 409, res_body = Inr ''Duplicate''\<rparr>
           else Inr \<lparr>status = 200, res_body = Inr ''stored''\<rparr>)\<rparr>"

definition sample_upload_url :: string where
  "sample_upload_url = ''https://db.example/storage/v1/object/videos/stories%2Foutput.mp4''"

definition sample_public_url :: string where
  "sample_public_url = ''https://db.example/storage/v1/object/public/videos/stories%2Foutput.mp4''"

definition first_publish :: "event list" where
  "first_publish =
     [ReadFile ''/tmp/work-1/final.mp4'' (Inr ''movie''),
      Fetch (JStr sample_upload_url) (Some (upload_init ''key'' ''movie''))
        (Inr \<lparr>status = 200, res_body = Inr ''stored''\<rparr>)]"

text \<open>The sample request with \<^verbatim>\<open>"fps": 1e999\<close>, which \<^verbatim>\<open>JSON.parse\<close> reads as
  \<^verbatim>\<open>Infinity\<close>.\<close>

definition huge_fps_request :: request where
  "huge_fps_request =
     \<lparr>headers = [],
      body = JObj
        [(''images'', JArr
            [JObj [(''url'', JStr ''http://a/1.png''), (''duration'', JNum (Fin 2))],
             JObj [(''url'', JStr ''http://a/2.png'')]]),
         (''audio'', JStr ''http://a/a.mp3''),
         (''fps'', JNum PosInfinity)]\<rparr>"

definition sample_published :: "event list" where
  "sample_published =
     sample_prepared @
     [Exec sample_render (ExecResult None [] []),
      Exec sample_mux (ExecResult None [] []),
      ReadFile ''/tmp/work-1700000000000/final.mp4'' (Inr ''movie''),
      Fetch (JStr ''https://db.example/storage/v1/object/videos/stories%2Foutput.mp4'')
        (Some (upload_init ''key'' ''movie'')) (Inr sample_response)]"

section \<open>The timeline description has one entry per image and a closing repeat\<close>

lemma split_lines_line:
  "CHR ''\<newline>'' \<notin> set s \<Longrightarrow>
   split_lines cur (s @ CHR ''\<newline>'' # rest) = (cur @ s) # split_lines [] rest"
  by (induction s arbitrary: cur) auto

lemma concat_loop_append:
  "concat_loop rt imgs acc =
     acc @ concat (map (\<lambda>i. ''file '' @ img_file i @ ''\<newline>''
                          @ ''duration '' @ num_to_string rt (img_duration i) @ ''\<newline>'') imgs)"
  by (induction imgs arbitrary: acc) auto

lemma strip_prefix_append [simp]: "strip_prefix p (p @ s) = Some s"
  by (induction p) auto

lemma split_lines_entries:
  assumes "\<forall>i \<in> set imgs. CHR ''\<newline>'' \<notin> set (img_file i)
             \<and> CHR ''\<newline>'' \<notin> set (num_to_string rt (img_duration i))"
  shows "split_lines []
           (concat (map (\<lambda>i. ''file '' @ img_file i @ ''\<newline>''
                          @ ''duration '' @ num_to_string rt (img_duration i) @ ''\<newline>'') imgs)
            @ rest)
         = concat (map (\<lambda>i. [''file '' @ img_file i,
                             ''duration '' @ num_to_string rt (img_duration i)]) imgs)
           @ split_lines [] rest"
  using assms
proof (induction imgs)
  case Nil
  then show ?case by simp
next
  case (Cons i imgs)
  have f: "CHR ''\<newline>'' \<notin> set (''file '' @ img_file i)"
    and d: "CHR ''\<newline>'' \<notin> set (''duration '' @ num_to_string rt (img_duration i))"
    using Cons.prems by auto
  show ?case
    using split_lines_line [OF f, of "[]"] split_lines_line [OF d, of "[]"] Cons
    by simp
qed

lemma read_entries_pairs:
  "read_entries (concat (map (\<lambda>i. [''file '' @ img_file i,
                             ''duration '' @ num_to_string rt (img_duration i)]) imgs) @ ls)
   = map (\<lambda>i. (img_file i, Some (num_to_string rt (img_duration i)))) imgs @ read_entries ls"
proof (induction imgs)
  case Nil then show ?case by simp
next
  case (Cons i imgs)
  have "strip_prefix ''file '' (''file '' @ img_file i) = Some (img_file i)"
    by (rule strip_prefix_append)
  moreover have "strip_prefix ''duration '' (''duration '' @ num_to_string rt (img_duration i))
     = Some (num_to_string rt (img_duration i))"
    by (rule strip_prefix_append)
  ultimately show ?case using Cons by simp
qed

lemma show_nat_digit: "n < 10 \<Longrightarrow> show_nat n = [digit_char n]"
  by (simp add: show_nat.simps)

text \<open>
  C1. For a non-empty list of N local assets whose paths and printed durations hold no
  line break, \<^verbatim>\<open>concatContent\<close> is built without an error and reads back as exactly N+1
  file entries: the N asset paths in input order, each with its duration right after it,
  and then the last asset's path once more, with no duration.
\<close>

theorem concatContent_entries:
  assumes "localImgs \<noteq> []"
    and "\<forall>i \<in> set localImgs. CHR ''\<newline>'' \<notin> set (img_file i)
             \<and> CHR ''\<newline>'' \<notin> set (num_to_string rt (img_duration i))"
  shows "\<exists>c. concatContent rt localImgs = Inr c
           \<and> timeline_entries c =
               map (\<lambda>i. (img_file i, Some (num_to_string rt (img_duration i)))) localImgs
               @ [(img_file (last localImgs), None)]
           \<and> length (timeline_entries c) = length localImgs + 1"
proof -
  let ?l = "last localImgs"
  let ?body = "concat (map (\<lambda>i. ''file '' @ img_file i @ ''\<newline>''
                 @ ''duration '' @ num_to_string rt (img_duration i) @ ''\<newline>'') localImgs)"
  let ?pairs = "concat (map (\<lambda>i. [''file '' @ img_file i,
                 ''duration '' @ num_to_string rt (img_duration i)]) localImgs)"
  let ?c = "''ffconcat version 1.0'' @ CHR ''\<newline>'' #
              (?body @ (''file '' @ img_file ?l) @ CHR ''\<newline>'' # [])"
  have nl: "CHR ''\<newline>'' \<notin> set (''file '' @ img_file ?l)"
    using assms by auto
  have hd: "CHR ''\<newline>'' \<notin> set ''ffconcat version 1.0''"
    by simp
  have "localImgs ! (length localImgs - 1) = ?l"
    using assms(1) by (simp add: last_conv_nth)
  then have c: "concatContent rt localImgs = Inr ?c"
    using assms(1) by (simp add: concatContent_def concat_loop_append)
  have "split_lines [] ?c = ''ffconcat version 1.0'' # split_lines [] (?body @ (''file '' @ img_file ?l) @ CHR ''\<newline>'' # [])"
    using split_lines_line [OF hd, of "[]"] by simp
  also have "split_lines [] (?body @ (''file '' @ img_file ?l) @ CHR ''\<newline>'' # [])
      = ?pairs @ split_lines [] ((''file '' @ img_file ?l) @ CHR ''\<newline>'' # [])"
    by (rule split_lines_entries [OF assms(2)])
  also have "split_lines [] ((''file '' @ img_file ?l) @ CHR ''\<newline>'' # []) = [''file '' @ img_file ?l]"
    using split_lines_line [OF nl, of "[]" "[]"] by simp
  finally have lines: "split_lines [] ?c = ''ffconcat version 1.0'' # ?pairs @ [''file '' @ img_file ?l]" .
  have skip: "read_entries (''ffconcat version 1.0'' # ls) = read_entries ls" for ls
    by (cases ls) simp_all
  have "strip_prefix ''file '' (''file '' @ img_file ?l) = Some (img_file ?l)"
    by (rule strip_prefix_append)
  then have fin: "read_entries [''file '' @ img_file ?l] = [(img_file ?l, None)]"
    by simp
  have "timeline_entries ?c =
      map (\<lambda>i. (img_file i, Some (num_to_string rt (img_duration i)))) localImgs
        @ [(img_file ?l, None)]"
    unfolding timeline_entries_def lines skip read_entries_pairs fin ..
  then show ?thesis using c by simp
qed

theorem concatContent_entries_witness:
  "\<exists>c. concatContent sample_runtime sample_localImgs = Inr c
      \<and> timeline_entries c =
          [(''/tmp/work-1/img_000.png'', Some ''2''),
           (''/tmp/work-1/img_001.png'', Some ''NaN''),
           (''/tmp/work-1/img_001.png'', None)]
      \<and> length (timeline_entries c) = 3"
  using concatContent_entries [of sample_localImgs sample_runtime]
  by (simp add: sample_localImgs_def num_to_string_def show_int_def show_nat_digit digit_char_def
      numeral_3_eq_3)

section \<open>Running the handler symbolically\<close>

lemma await_lift [simp]:
  "await (lift r) f tr = (case r of Inl e \<Rightarrow> (Inl e, tr) | Inr a \<Rightarrow> f a tr)"
  by (simp add: await_def lift_def split: sum.splits)

lemma resolve_apply [simp]: "resolve a tr = (Inr a, tr)"
  by (simp add: resolve_def lift_def)

lemma throw_apply [simp]: "throw e tr = (Inl e, tr)"
  by (simp add: throw_def lift_def)

lemma await_cases:
  assumes "await m f tr = (r, tr')"
  obtains (thrown) e where "m tr = (Inl e, tr')" "r = Inl e"
  | (resolved) a tr1 where "m tr = (Inr a, tr1)" "f a tr1 = (r, tr')"
  using assms by (auto simp: await_def split: prod.splits sum.splits)

lemma clean_Nil [simp]: "clean rt []"
  by (simp add: clean_def)

lemma clean_append [simp]: "clean rt (xs @ ys) = (clean rt xs \<and> clean rt ys)"
  by (simp add: clean_def)

lemma clean_Cons [simp]: "clean rt (x # xs) = (thrown rt x = None \<and> clean rt xs)"
  by (simp add: clean_def)

lemma fail_fast_Nil [simp]: "fail_fast rt r []"
  by (simp add: fail_fast_def)

lemma fail_fast_Inr: "fail_fast rt (Inr a) evs = clean rt evs"
  by (auto simp: fail_fast_def)

lemma fail_fast_single:
  "fail_fast rt r [e] = (thrown rt e = None \<or> (\<exists>err. thrown rt e = Some err \<and> r = Inl err))"
  by (auto simp: fail_fast_def)

lemma fail_fast_append:
  "clean rt xs \<Longrightarrow> fail_fast rt r ys \<Longrightarrow> fail_fast rt r (xs @ ys)"
  unfolding fail_fast_def
  by (elim disjE exE conjE) (simp, metis append_assoc clean_append)

lemma downloads_append [simp]: "downloads (xs @ ys) = downloads xs @ downloads ys"
  by (induction xs rule: downloads.induct) auto

lemma await_fetch [simp]:
  "await (fetch env url init) f tr =
     (case net_fetch env tr url init of
        Inl e \<Rightarrow> (Inl e, tr @ [Fetch url init (Inl e)])
      | Inr res \<Rightarrow> f res (tr @ [Fetch url init (Inr res)]))"
  by (simp add: await_def fetch_def Let_def split: sum.splits)

lemma await_writeFile [simp]:
  "await (writeFile env path content) f tr =
     (case fs_writeFile env tr path content of
        Some e \<Rightarrow> (Inl e, tr @ [WriteFile path content (Some e)])
      | None \<Rightarrow> f () (tr @ [WriteFile path content None]))"
  by (simp add: await_def writeFile_def Let_def split: option.splits)

lemma await_mkdir [simp]:
  "await (mkdir env path) f tr =
     (case fs_mkdir env tr path of
        Some e \<Rightarrow> (Inl e, tr @ [Mkdir path (Some e)])
      | None \<Rightarrow> f () (tr @ [Mkdir path None]))"
  by (simp add: await_def mkdir_def Let_def split: option.splits)

lemma await_readFile [simp]:
  "await (readFile env path) f tr =
     (case fs_readFile env tr path of
        Inl e \<Rightarrow> (Inl e, tr @ [ReadFile path (Inl e)])
      | Inr buf \<Rightarrow> f buf (tr @ [ReadFile path (Inr buf)]))"
  by (simp add: await_def readFile_def Let_def split: sum.splits)

lemma await_run [simp]:
  "await (run env cmd) f tr =
     (case exec_err (child_exec env tr cmd) of
        Some m \<Rightarrow> (Inl (JsError m (Some (exec_stderr (child_exec env tr cmd)))),
                   tr @ [Exec cmd (child_exec env tr cmd)])
      | None \<Rightarrow> f (exec_stdout (child_exec env tr cmd)) (tr @ [Exec cmd (child_exec env tr cmd)]))"
  by (simp add: await_def run_def Let_def split: option.splits)

lemma await_Date_now [simp]:
  "await (Date_now env) f tr = f (date_now env tr) (tr @ [DateNow (date_now env tr)])"
  by (simp add: await_def Date_now_def Let_def)

lemma downloadToFile_spec:
  assumes "downloadToFile rt env url out tr = (r, tr')"
  shows "\<exists>evs. tr' = tr @ evs \<and> fail_fast rt r evs \<and> downloads evs = [url]
           \<and> list_all (\<lambda>e. stage e = 0) evs \<and> workspace_of evs = None
           \<and> (\<forall>a. r = Inr a \<longrightarrow> a = out)"
  using assms
  by (auto simp: downloadToFile_def fail_fast_single fail_fast_def
      split: sum.splits if_splits option.splits)


lemma url_of_Inr [simp]: "get_member img ''url'' = Inr u \<Longrightarrow> url_of img = u"
  by (simp add: url_of_def)

lemma workspace_of_append_None:
  "workspace_of xs = None \<Longrightarrow> workspace_of ys = None \<Longrightarrow> workspace_of (xs @ ys) = None"
  by (induction xs rule: workspace_of.induct) auto

lemma download_images_spec:
  assumes "download_images rt env wd imgs i acc tr = (r, tr')"
  shows "\<exists>evs n. tr' = tr @ evs \<and> fail_fast rt r evs
           \<and> downloads evs = take n (map url_of imgs)
           \<and> list_all (\<lambda>e. stage e = 0) evs \<and> workspace_of evs = None
           \<and> (\<forall>ls. r = Inr ls \<longrightarrow>
                 downloads evs = map url_of imgs
                 \<and> (\<exists>new. ls = acc @ new
                      \<and> list_all2 (\<lambda>img l. image_duration rt img = Inr (img_duration l))
                          imgs new))"
  using assms
proof (induction imgs arbitrary: i acc tr r tr')
  case Nil
  then show ?case by auto
next
  case (Cons img rest)
  show ?case
  proof (cases "get_member img ''url''")
    case (Inl e)
    with Cons.prems have "r = Inl e" "tr' = tr" by auto
    then show ?thesis by (intro exI [of _ "[]"] exI [of _ 0]) simp
  next
    case url: (Inr u)
    show ?thesis
    proof (cases "image_duration rt img")
      case (Inl e)
      with Cons.prems url have "r = Inl e" "tr' = tr" by auto
      then show ?thesis by (intro exI [of _ "[]"] exI [of _ 0]) simp
    next
      case dur: (Inr d)
      let ?out = "path_join wd (''img_'' @ padStart3 (show_nat i) @ ''.png'')"
      let ?x = "\<lparr>img_file = ?out, img_duration = d\<rparr>"
      from Cons.prems url dur
      have run: "await (downloadToFile rt env u ?out)
                   (\<lambda>_. download_images rt env wd rest (Suc i) (acc @ [?x])) tr = (r, tr')"
        by (simp add: Let_def)
      from run show ?thesis
      proof (cases rule: await_cases)
        case (thrown e)
        from downloadToFile_spec [OF thrown(1)] obtain evs where
          evs: "tr' = tr @ evs" "fail_fast rt (Inl e :: js_error + string) evs"
            "downloads evs = [u]" "list_all (\<lambda>e. stage e = 0) evs" "workspace_of evs = None"
          by blast
        have "fail_fast rt r evs"
          using evs(2) thrown(2) by (auto simp: fail_fast_def)
        moreover have "downloads evs = take 1 (map url_of (img # rest))"
          using evs(3) url by simp
        ultimately show ?thesis
          using evs thrown(2) by blast
      next
        case (resolved a tr1)
        from downloadToFile_spec [OF resolved(1)] obtain evs1 where
          evs1: "tr1 = tr @ evs1" "clean rt evs1"
            "downloads evs1 = [u]" "list_all (\<lambda>e. stage e = 0) evs1" "workspace_of evs1 = None"
          by (auto simp: fail_fast_Inr)
        from Cons.IH [OF resolved(2)] obtain evs2 n where
          evs2: "tr' = tr1 @ evs2" "fail_fast rt r evs2"
            "downloads evs2 = take n (map url_of rest)"
            "list_all (\<lambda>e. stage e = 0) evs2" "workspace_of evs2 = None"
            "\<forall>ls. r = Inr ls \<longrightarrow>
                 downloads evs2 = map url_of rest
                 \<and> (\<exists>new. ls = (acc @ [?x]) @ new
                      \<and> list_all2 (\<lambda>img l. image_duration rt img = Inr (img_duration l))
                          rest new)"
          by blast
        have a: "tr' = tr @ (evs1 @ evs2)" using evs1(1) evs2(1) by simp
        have b: "fail_fast rt r (evs1 @ evs2)"
          using evs1(2) evs2(2) by (rule fail_fast_append)
        have c: "downloads (evs1 @ evs2) = take (Suc n) (map url_of (img # rest))"
          using evs1(3) evs2(3) url by simp
        have d: "list_all (\<lambda>e. stage e = 0) (evs1 @ evs2)"
          using evs1(4) evs2(4) by simp
        have e: "workspace_of (evs1 @ evs2) = None"
          using evs1(5) evs2(5) by (rule workspace_of_append_None)
        have f: "downloads (evs1 @ evs2) = map url_of (img # rest)
                 \<and> (\<exists>new. ls = acc @ new
                      \<and> list_all2 (\<lambda>img l. image_duration rt img = Inr (img_duration l))
                          (img # rest) new)" if "r = Inr ls" for ls
        proof -
          from evs2(6) that obtain new where
            1: "downloads evs2 = map url_of rest" and
            2: "ls = (acc @ [?x]) @ new" and
            3: "list_all2 (\<lambda>img l. image_duration rt img = Inr (img_duration l)) rest new"
            by blast
          have "ls = acc @ (?x # new)" using 2 by simp
          moreover have "list_all2 (\<lambda>img l. image_duration rt img = Inr (img_duration l))
                          (img # rest) (?x # new)"
            using 3 dur by simp
          ultimately show ?thesis using 1 evs1(3) url by auto
        qed
        from a b c d e f show ?thesis by blast
      qed
    qed
  qed
qed

section \<open>What each stage appends to the history\<close>

lemma fetch_assets_spec:
  assumes "fetch_assets rt env imgs a tr = (r, tr')"
  shows "\<exists>evs n. tr' = tr @ evs \<and> fail_fast rt r evs
           \<and> downloads evs = take n (map url_of imgs @ [a])
           \<and> list_all (\<lambda>e. stage e = 0) evs
           \<and> workspace_of evs = Some (workDir_of (date_now env tr))
           \<and> (\<forall>wd ls af. r = Inr (wd, ls, af) \<longrightarrow>
                 downloads evs = map url_of imgs @ [a]
                 \<and> wd = workDir_of (date_now env tr)
                 \<and> af = path_join wd ''audio.mp3''
                 \<and> list_all2 (\<lambda>img l. image_duration rt img = Inr (img_duration l)) imgs ls)"
proof -
  let ?t = "date_now env tr"
  let ?wd = "workDir_of ?t"
  let ?tr0 = "tr @ [DateNow ?t]"
  show ?thesis
  proof (cases "fs_mkdir env ?tr0 ?wd")
    case (Some e)
    with assms have "r = Inl e" "tr' = tr @ [DateNow ?t, Mkdir ?wd (Some e)]"
      by (auto simp: fetch_assets_def Let_def)
    then show ?thesis
      by (intro exI [of _ "[DateNow ?t, Mkdir ?wd (Some e)]"] exI [of _ 0])
         (simp add: fail_fast_def)
  next
    case None
    let ?tr1 = "tr @ [DateNow ?t, Mkdir ?wd None]"
    let ?af = "path_join ?wd ''audio.mp3''"
    from assms None
    have run: "await (download_images rt env ?wd imgs 0 [])
                 (\<lambda>localImgs. await (downloadToFile rt env a ?af)
                    (\<lambda>_. resolve (?wd, localImgs, ?af))) ?tr1 = (r, tr')"
      by (simp add: fetch_assets_def Let_def)
    from run show ?thesis
    proof (cases rule: await_cases)
      case (thrown e)
      from download_images_spec [OF thrown(1)] obtain evs n where
        evs: "tr' = ?tr1 @ evs" "fail_fast rt (Inl e :: js_error + local_img list) evs"
          "downloads evs = take n (map url_of imgs)"
          "list_all (\<lambda>e. stage e = 0) evs" "workspace_of evs = None"
        by blast
      let ?evs = "[DateNow ?t, Mkdir ?wd None] @ evs"
      have "fail_fast rt r evs"
        using evs(2) thrown(2) by (auto simp: fail_fast_def)
      then have "fail_fast rt r ?evs"
        by (intro fail_fast_append) simp_all
      moreover have "downloads ?evs = take (min n (length imgs)) (map url_of imgs @ [a])"
        using evs(3) by (simp add: take_map min_def)
      moreover have "tr' = tr @ ?evs" using evs(1) by simp
      moreover have "list_all (\<lambda>e. stage e = 0) ?evs" using evs(4) by simp
      moreover have "workspace_of ?evs = Some ?wd" by simp
      ultimately show ?thesis using thrown(2) by blast
    next
      case (resolved ls tr2)
      from download_images_spec [OF resolved(1)] obtain evs1 where
        evs1: "tr2 = ?tr1 @ evs1" "clean rt evs1"
          "downloads evs1 = map url_of imgs"
          "list_all (\<lambda>e. stage e = 0) evs1" "workspace_of evs1 = None"
          "list_all2 (\<lambda>img l. image_duration rt img = Inr (img_duration l)) imgs ls"
        by (auto simp: fail_fast_Inr)
      from resolved(2) show ?thesis
      proof (cases rule: await_cases)
        case (thrown e)
        from downloadToFile_spec [OF thrown(1)] obtain evs2 where
          evs2: "tr' = tr2 @ evs2" "fail_fast rt (Inl e :: js_error + string) evs2"
            "downloads evs2 = [a]" "list_all (\<lambda>e. stage e = 0) evs2"
          by blast
        let ?evs = "[DateNow ?t, Mkdir ?wd None] @ evs1 @ evs2"
        have "fail_fast rt r evs2"
          using evs2(2) thrown(2) by (auto simp: fail_fast_def)
        then have "fail_fast rt r ?evs"
          using evs1(2) by (intro fail_fast_append) simp_all
        moreover have "downloads ?evs = take (Suc (length imgs)) (map url_of imgs @ [a])"
          using evs1(3) evs2(3) by simp
        moreover have "tr' = tr @ ?evs" using evs1(1) evs2(1) by simp
        moreover have "list_all (\<lambda>e. stage e = 0) ?evs" using evs1(4) evs2(4) by simp
        moreover have "workspace_of ?evs = Some ?wd" by simp
        ultimately show ?thesis using thrown(2) by blast
      next
        case (resolved x tr3)
        from downloadToFile_spec [OF resolved(1)] obtain evs2 where
          evs2: "tr3 = tr2 @ evs2" "clean rt evs2"
            "downloads evs2 = [a]" "list_all (\<lambda>e. stage e = 0) evs2"
          by (auto simp: fail_fast_Inr)
        let ?evs = "[DateNow ?t, Mkdir ?wd None] @ evs1 @ evs2"
        from resolved(2) have res: "r = Inr (?wd, ls, ?af)" "tr' = tr3" by auto
        have "fail_fast rt r ?evs"
          using evs1(2) evs2(2) by (simp add: fail_fast_def)
        moreover have "downloads ?evs = take (Suc (length imgs)) (map url_of imgs @ [a])"
          "downloads ?evs = map url_of imgs @ [a]"
          using evs1(3) evs2(3) by simp_all
        moreover have "tr' = tr @ ?evs" using evs1(1) evs2(1) res by simp
        moreover have "list_all (\<lambda>e. stage e = 0) ?evs" using evs1(4) evs2(4) by simp
        moreover have "workspace_of ?evs = Some ?wd" by simp
        ultimately show ?thesis using res evs1(6) by blast
      qed
    qed
  qed
qed

lemma encode_spec:
  assumes "encode rt env wd ls af w h tr = (r, tr')"
  shows "\<exists>ws xs. tr' = tr @ ws @ xs \<and> fail_fast rt r (ws @ xs)
           \<and> list_all (\<lambda>e. stage e = 0) ws \<and> downloads ws = [] \<and> workspace_of ws = None
           \<and> list_all (\<lambda>e. stage e = 1) xs
           \<and> (\<forall>final. r = Inr final \<longrightarrow>
                 final = path_join wd ''final.mp4''
                 \<and> (\<exists>c1 r1 c2 r2. xs = [Exec c1 r1, Exec c2 r2]
                       \<and> exec_err r1 = None \<and> exec_err r2 = None))"
proof (cases "concatContent rt ls")
  case (Inl e)
  with assms have "r = Inl e" "tr' = tr" by (auto simp: encode_def Let_def)
  then show ?thesis by (intro exI [of _ "[]"]) simp
next
  case content: (Inr c)
  let ?txt = "path_join wd ''list.txt''"
  show ?thesis
  proof (cases "fs_writeFile env tr ?txt c")
    case (Some e)
    with assms content have "r = Inl e" "tr' = tr @ [WriteFile ?txt c (Some e)] @ []"
      by (auto simp: encode_def Let_def)
    then show ?thesis
      by (intro exI [of _ "[WriteFile ?txt c (Some e)]"] exI [of _ "[]"])
         (simp add: fail_fast_def)
  next
    case None
    let ?w = "WriteFile ?txt c None"
    show ?thesis
    proof (cases "video_filter rt w h")
      case (Inl e)
      with assms content None have "r = Inl e" "tr' = tr @ [?w] @ []"
        by (auto simp: encode_def Let_def)
      then show ?thesis
        by (intro exI [of _ "[?w]"] exI [of _ "[]"]) (simp add: fail_fast_def)
    next
      case vf: (Inr f)
      let ?video = "path_join wd ''video.mp4''"
      let ?c1 = "render_cmd ?txt f ?video"
      let ?r1 = "child_exec env (tr @ [?w]) ?c1"
      show ?thesis
      proof (cases "exec_err ?r1")
        case (Some m)
        with assms content None vf
        have "r = Inl (JsError m (Some (exec_stderr ?r1)))" "tr' = tr @ [?w] @ [Exec ?c1 ?r1]"
          by (auto simp: encode_def Let_def)
        then show ?thesis using Some
          by (intro exI [of _ "[?w]"] exI [of _ "[Exec ?c1 ?r1]"])
             (simp add: fail_fast_def)
      next
        case r1: None
        let ?final = "path_join wd ''final.mp4''"
        let ?c2 = "mux_cmd ?video af ?final"
        let ?r2 = "child_exec env (tr @ [?w, Exec ?c1 ?r1]) ?c2"
        show ?thesis
        proof (cases "exec_err ?r2")
          case (Some m)
          with assms content None vf r1
          have "r = Inl (JsError m (Some (exec_stderr ?r2)))"
            "tr' = tr @ [?w] @ [Exec ?c1 ?r1, Exec ?c2 ?r2]"
            by (auto simp: encode_def Let_def)
          then show ?thesis using Some r1
            by (intro exI [of _ "[?w]"] exI [of _ "[Exec ?c1 ?r1, Exec ?c2 ?r2]"])
               (simp add: fail_fast_def)
        next
          case r2: None
          with assms content None vf r1
          have "r = Inr ?final" "tr' = tr @ [?w] @ [Exec ?c1 ?r1, Exec ?c2 ?r2]"
            by (auto simp: encode_def Let_def)
          then show ?thesis using r1 r2
            by (intro exI [of _ "[?w]"] exI [of _ "[Exec ?c1 ?r1, Exec ?c2 ?r2]"])
               (simp add: fail_fast_def)
        qed
      qed
    qed
  qed
qed

lemma publish_spec:
  assumes "publish rt cfg env out final tr = (r, tr')"
  shows "\<exists>evs. tr' = tr @ evs \<and> fail_fast rt r evs \<and> list_all (\<lambda>e. stage e = 2) evs
           \<and> (absent (SUPABASE_URL cfg) \<or> absent (SUPABASE_SERVICE_ROLE_KEY cfg) \<longrightarrow>
                 evs = [] \<and> r = Inl missing_config)
           \<and> (\<forall>pub buf. r = Inr (pub, buf) \<longrightarrow>
                 (\<exists>base key up res.
                    SUPABASE_URL cfg = Some base \<and> SUPABASE_SERVICE_ROLE_KEY cfg = Some key
                    \<and> uploadUrl rt cfg base out = Inr up \<and> publicUrl rt cfg base out = Inr pub
                    \<and> evs = [ReadFile final (Inr buf),
                              Fetch (JStr up) (Some (upload_init key buf)) (Inr res)]
                    \<and> ok res))"
  using assms
  by (auto simp: publish_def fail_fast_def absent_def missing_config_def
      split: option.splits sum.splits if_splits)


lemma fail_fast_clean_front:
  assumes "fail_fast rt r (xs @ ys)" "ys \<noteq> []"
  shows "clean rt xs"
  using assms unfolding fail_fast_def
proof (elim disjE exE conjE)
  fix pre e err
  assume eq: "xs @ ys = pre @ [e]" and pre: "clean rt pre"
  from assms(2) obtain ys' y where ys: "ys = ys' @ [y]"
    by (metis rev_exhaust)
  with eq have "xs @ ys' = pre" by simp
  with pre show "clean rt xs" by (metis clean_append)
qed simp

lemma pipeline_spec:
  assumes "pipeline rt cfg env imgs p tr = (r, tr')"
  shows "\<exists>A E P n. tr' = tr @ A @ E @ P \<and> fail_fast rt r (A @ E @ P)
           \<and> list_all (\<lambda>e. stage e = 0) A \<and> list_all (\<lambda>e. stage e = 1) E
           \<and> list_all (\<lambda>e. stage e = 2) P
           \<and> downloads A = take n (map url_of imgs @ [audio p])
           \<and> workspace_of A = Some (workDir_of (date_now env tr))
           \<and> (E \<noteq> [] \<longrightarrow> downloads A = map url_of imgs @ [audio p])
           \<and> (absent (SUPABASE_URL cfg) \<or> absent (SUPABASE_SERVICE_ROLE_KEY cfg) \<longrightarrow> P = [])
           \<and> (P \<noteq> [] \<longrightarrow>
                 (\<exists>c1 r1 c2 r2. E = [Exec c1 r1, Exec c2 r2]
                    \<and> exec_err r1 = None \<and> exec_err r2 = None))
           \<and> (\<forall>rep. r = Inr rep \<longrightarrow>
                 (\<exists>pub buf base key up res wd.
                    rep = success_reply p (length imgs) pub buf
                    \<and> SUPABASE_URL cfg = Some base \<and> SUPABASE_SERVICE_ROLE_KEY cfg = Some key
                    \<and> uploadUrl rt cfg base (outputPath p) = Inr up
                    \<and> publicUrl rt cfg base (outputPath p) = Inr pub
                    \<and> P = [ReadFile (path_join wd ''final.mp4'') (Inr buf),
                            Fetch (JStr up) (Some (upload_init key buf)) (Inr res)]
                    \<and> wd = workDir_of (date_now env tr)
                    \<and> ok res))"
proof -
  from assms have run:
    "await (fetch_assets rt env imgs (audio p)) (\<lambda>(workDir, localImgs, audioFile).
       await (encode rt env workDir localImgs audioFile (width p) (height p)) (\<lambda>finalFile.
       await (publish rt cfg env (outputPath p) finalFile) (\<lambda>(pubUrl, fileBuffer).
       resolve (success_reply p (length imgs) pubUrl fileBuffer)))) tr = (r, tr')"
    by (simp add: pipeline_def)
  let ?wd = "workDir_of (date_now env tr)"
  from run show ?thesis
  proof (cases rule: await_cases)
    case (thrown e)
    from fetch_assets_spec [OF thrown(1)] obtain A n where
      A: "tr' = tr @ A" "fail_fast rt (Inl e :: js_error + string \<times> local_img list \<times> string) A"
        "downloads A = take n (map url_of imgs @ [audio p])"
        "list_all (\<lambda>e. stage e = 0) A" "workspace_of A = Some ?wd"
      by blast
    have "fail_fast rt r A" using A(2) thrown(2) by (auto simp: fail_fast_def)
    then show ?thesis using A thrown(2)
      by (intro exI [of _ A] exI [of _ "[]"] exI [of _ n]) simp
  next
    case (resolved x tr1)
    obtain wd ls af where x: "x = (wd, ls, af)" by (cases x)
    from fetch_assets_spec [OF resolved(1)] x obtain A0 where
      A0: "tr1 = tr @ A0" "clean rt A0"
        "downloads A0 = map url_of imgs @ [audio p]"
        "list_all (\<lambda>e. stage e = 0) A0" "workspace_of A0 = Some ?wd" "wd = ?wd"
      by (auto simp: fail_fast_Inr)
    from resolved(2) x have run2:
      "await (encode rt env wd ls af (width p) (height p)) (\<lambda>finalFile.
         await (publish rt cfg env (outputPath p) finalFile) (\<lambda>(pubUrl, fileBuffer).
         resolve (success_reply p (length imgs) pubUrl fileBuffer))) tr1 = (r, tr')"
      by simp
    have ws: "workspace_of (A0 @ ws) = Some ?wd" for ws
      using A0(5) by (induction A0 rule: workspace_of.induct) auto
    from run2 show ?thesis
    proof (cases rule: await_cases)
      case (thrown e)
      from encode_spec [OF thrown(1)] obtain ws xs where
        E: "tr' = tr1 @ ws @ xs" "fail_fast rt (Inl e :: js_error + string) (ws @ xs)"
          "list_all (\<lambda>e. stage e = 0) ws" "downloads ws = []"
          "list_all (\<lambda>e. stage e = 1) xs"
        by blast
      have "fail_fast rt r (ws @ xs)" using E(2) thrown(2) by (auto simp: fail_fast_def)
      then have ff: "fail_fast rt r ((A0 @ ws) @ xs @ [])"
        using A0(2) by (simp add: fail_fast_append)
      have "downloads (A0 @ ws) = take (Suc (length imgs)) (map url_of imgs @ [audio p])"
        using A0(3) E(4) by simp
      then show ?thesis using ff A0 E thrown(2) ws
        by (intro exI [of _ "A0 @ ws"] exI [of _ xs] exI [of _ "[]"]
              exI [of _ "Suc (length imgs)"]) simp
    next
      case (resolved final tr2)
      from encode_spec [OF resolved(1)] obtain ws xs c1 r1 c2 r2 where
        E: "tr2 = tr1 @ ws @ xs" "clean rt (ws @ xs)"
          "list_all (\<lambda>e. stage e = 0) ws" "downloads ws = []"
          "list_all (\<lambda>e. stage e = 1) xs" "final = path_join wd ''final.mp4''"
          "xs = [Exec c1 r1, Exec c2 r2]" "exec_err r1 = None" "exec_err r2 = None"
        by (auto simp: fail_fast_Inr)
      have dl: "downloads (A0 @ ws) = take (Suc (length imgs)) (map url_of imgs @ [audio p])"
        "downloads (A0 @ ws) = map url_of imgs @ [audio p]"
        using A0(3) E(4) by simp_all
      have cl: "clean rt ((A0 @ ws) @ xs)" using A0(2) E(2) by simp
      from resolved(2) show ?thesis
      proof (cases rule: await_cases)
        case (thrown e)
        from publish_spec [OF thrown(1)] obtain P where
          P: "tr' = tr2 @ P" "fail_fast rt (Inl e :: js_error + string \<times> string) P"
            "list_all (\<lambda>e. stage e = 2) P"
            "absent (SUPABASE_URL cfg) \<or> absent (SUPABASE_SERVICE_ROLE_KEY cfg) \<longrightarrow> P = []"
          by blast
        have "fail_fast rt r P" using P(2) thrown(2) by (auto simp: fail_fast_def)
        then have ff: "fail_fast rt r (((A0 @ ws) @ xs) @ P)"
          using cl by (rule fail_fast_append [rotated])
        show ?thesis using ff A0 E P dl thrown(2) ws
          by (intro exI [of _ "A0 @ ws"] exI [of _ xs] exI [of _ P]
                exI [of _ "Suc (length imgs)"]) simp
      next
        case (resolved y tr3)
        obtain pub buf where y: "y = (pub, buf)" by (cases y)
        from publish_spec [OF resolved(1)] y obtain P base key up res where
          P: "tr3 = tr2 @ P" "clean rt P" "list_all (\<lambda>e. stage e = 2) P"
            "absent (SUPABASE_URL cfg) \<or> absent (SUPABASE_SERVICE_ROLE_KEY cfg) \<longrightarrow> P = []"
            "SUPABASE_URL cfg = Some base" "SUPABASE_SERVICE_ROLE_KEY cfg = Some key"
            "uploadUrl rt cfg base (outputPath p) = Inr up"
            "publicUrl rt cfg base (outputPath p) = Inr pub"
            "P = [ReadFile final (Inr buf),
                  Fetch (JStr up) (Some (upload_init key buf)) (Inr res)]"
            "ok res"
          by (auto simp: fail_fast_Inr)
        from resolved(2) y have res: "r = Inr (success_reply p (length imgs) pub buf)" "tr' = tr3"
          by auto
        have ff: "fail_fast rt r (((A0 @ ws) @ xs) @ P)"
          using cl P(2) unfolding fail_fast_def by simp
        have a: "tr' = tr @ (A0 @ ws) @ xs @ P" using res P(1) E(1) A0(1) by simp
        have succ: "\<exists>pub' buf' base' key' up' res' wd'.
                    rep = success_reply p (length imgs) pub' buf'
                    \<and> SUPABASE_URL cfg = Some base' \<and> SUPABASE_SERVICE_ROLE_KEY cfg = Some key'
                    \<and> uploadUrl rt cfg base' (outputPath p) = Inr up'
                    \<and> publicUrl rt cfg base' (outputPath p) = Inr pub'
                    \<and> P = [ReadFile (path_join wd' ''final.mp4'') (Inr buf'),
                            Fetch (JStr up') (Some (upload_init key' buf')) (Inr res')]
                    \<and> wd' = ?wd
                    \<and> ok res'" if "r = Inr rep" for rep
          using that res(1) P(5-10) E(6) A0(6) by blast
        have ex: "\<exists>c1 r1 c2 r2. xs = [Exec c1 r1, Exec c2 r2]
                    \<and> exec_err r1 = None \<and> exec_err r2 = None"
          using E(7-9) by blast
        show ?thesis
          apply (rule exI [of _ "A0 @ ws"], rule exI [of _ xs], rule exI [of _ P],
                 rule exI [of _ "Suc (length imgs)"], intro conjI)
          using a apply simp
          using ff apply simp
          using A0(4) E(3) apply simp
          using E(5) apply simp
          using P(3) apply simp
          using dl(1) apply simp
          using ws apply simp
          using dl(2) apply simp
          using P(4) apply simp
          using ex apply simp
          using succ apply simp
          done
      qed
    qed
  qed
qed

section \<open>The route as a whole\<close>

lemma get_member_truthy: "truthy b \<Longrightarrow> \<exists>v. get_member b k = Inr v"
  by (cases b) auto

lemma truthy_body [simp]: "truthy (js_or b (JObj []))"
  by (simp add: js_or_def)

lemma and_then_Inr [simp]: "and_then (Inr a) f = f a"
  by (simp add: and_then_def)

lemma and_then_Inl [simp]: "and_then (Inl e) f = Inl e"
  by (simp add: and_then_def)

lemma destructure_truthy:
  assumes "truthy b"
  shows "\<exists>i a out w h f.
           get_member b ''images'' = Inr i \<and> get_member b ''audio'' = Inr a
           \<and> get_member b ''outputPath'' = Inr out \<and> get_member b ''width'' = Inr w
           \<and> get_member b ''height'' = Inr h \<and> get_member b ''fps'' = Inr f
           \<and> destructure b =
               Inr \<lparr>images = default_to (JArr []) i, audio = a,
                    outputPath = default_to (JStr ''stories/output.mp4'') out,
                    width = default_to (JNum (Fin 1920)) w,
                    height = default_to (JNum (Fin 1080)) h,
                    fps = default_to (JNum (Fin 25)) f\<rparr>"
proof -
  from get_member_truthy [OF assms] obtain i a out w h f where
    "get_member b ''images'' = Inr i" "get_member b ''audio'' = Inr a"
    "get_member b ''outputPath'' = Inr out" "get_member b ''width'' = Inr w"
    "get_member b ''height'' = Inr h" "get_member b ''fps'' = Inr f"
    by metis
  then show ?thesis by (simp add: destructure_def)
qed

lemma no_Cons_iff: "(\<forall>x xs. l \<noteq> x # xs) \<longleftrightarrow> l = []"
  by (cases l) auto

lemma create_video_cases:
  assumes "create_video rt cfg env req = (reply, tr)"
  obtains
    (unauthorised) "\<not> authorised cfg req" "reply = error_reply 401 ''Unauthorized''" "tr = []"
  | (no_images) p where "authorised cfg req"
      "destructure (js_or (body req) (JObj [])) = Inr p"
      "\<forall>x xs. images p \<noteq> JArr (x # xs)"
      "reply = error_reply 400 ''images[] required''" "tr = []"
  | (no_audio) p x xs where "authorised cfg req"
      "destructure (js_or (body req) (JObj [])) = Inr p"
      "images p = JArr (x # xs)" "\<not> truthy (audio p)"
      "reply = error_reply 400 ''audio url required''" "tr = []"
  | (ran) p imgs where "authorised cfg req"
      "destructure (js_or (body req) (JObj [])) = Inr p"
      "images p = JArr imgs" "imgs \<noteq> []" "truthy (audio p)"
      "pipeline rt cfg env imgs p [] = (Inr reply, tr)"
  | (failed) p imgs err tr0 where "authorised cfg req"
      "destructure (js_or (body req) (JObj [])) = Inr p"
      "images p = JArr imgs" "imgs \<noteq> []" "truthy (audio p)"
      "pipeline rt cfg env imgs p [] = (Inl err, tr0)"
      "reply = failure_reply err" "tr = tr0 @ [ConsoleError err]"
proof (cases "authorised cfg req")
  case False
  with assms have "reply = error_reply 401 ''Unauthorized''" "tr = []"
    by (auto simp: create_video_def handler_try_def)
  with False show ?thesis by (rule unauthorised)
next
  case auth: True
  from destructure_truthy [OF truthy_body, of "body req"]
  obtain p where p: "destructure (js_or (body req) (JObj [])) = Inr p"
    by blast
  show ?thesis
  proof (cases "\<exists>x xs. images p = JArr (x # xs)")
    case False
    then have "reply = error_reply 400 ''images[] required''" "tr = []"
      using assms auth p
      by (auto simp: create_video_def handler_try_def no_Cons_iff split: jsval.splits)
    with auth p False show ?thesis by (intro no_images) auto
  next
    case True
    then obtain x xs where im: "images p = JArr (x # xs)" by blast
    show ?thesis
    proof (cases "truthy (audio p)")
      case False
      then have "reply = error_reply 400 ''audio url required''" "tr = []"
        using assms auth p im by (auto simp: create_video_def handler_try_def)
      with auth p im False show ?thesis by (intro no_audio) auto
    next
      case True
      have h: "handler_try rt cfg env req [] = pipeline rt cfg env (x # xs) p []"
        using auth p im True by (simp add: handler_try_def)
      obtain r tr0 where r: "pipeline rt cfg env (x # xs) p [] = (r, tr0)"
        by (cases "pipeline rt cfg env (x # xs) p []")
      show ?thesis
      proof (cases r)
        case (Inl err)
        with assms h r have "reply = failure_reply err" "tr = tr0 @ [ConsoleError err]"
          by (auto simp: create_video_def)
        with auth p im True r Inl show ?thesis by (intro failed [of p "x # xs" err tr0]) auto
      next
        case (Inr rep)
        with assms h r have "reply = rep" "tr = tr0"
          by (auto simp: create_video_def)
        with auth p im True r Inr show ?thesis by (intro ran [of p "x # xs"]) auto
      qed
    qed
  qed
qed


lemma pipeline_shape:
  assumes "pipeline rt cfg env imgs p tr = (r, tr')"
  obtains A E P n where
    "tr' = tr @ A @ E @ P" "fail_fast rt r (A @ E @ P)"
    "list_all (\<lambda>e. stage e = 0) A" "list_all (\<lambda>e. stage e = 1) E"
    "list_all (\<lambda>e. stage e = 2) P"
    "downloads A = take n (map url_of imgs @ [audio p])"
    "workspace_of A = Some (workDir_of (date_now env tr))"
    "E \<noteq> [] \<longrightarrow> downloads A = map url_of imgs @ [audio p]"
    "absent (SUPABASE_URL cfg) \<or> absent (SUPABASE_SERVICE_ROLE_KEY cfg) \<longrightarrow> P = []"
    "P \<noteq> [] \<longrightarrow>
       (\<exists>c1 r1 c2 r2. E = [Exec c1 r1, Exec c2 r2]
          \<and> exec_err r1 = None \<and> exec_err r2 = None)"
  using pipeline_spec [OF assms] by (elim exE conjE) (rule that; assumption)

lemma fail_fast_thrown:
  assumes "fail_fast rt r evs" "x \<in> set evs" "thrown rt x = Some err"
  shows "r = Inl err \<and> (\<exists>pre. evs = pre @ [x] \<and> clean rt pre)"
proof -
  from assms(2,3) have "\<not> clean rt evs"
    by (auto simp: clean_def list_all_iff)
  with assms(1) obtain pre e err' where
    e: "evs = pre @ [e]" "clean rt pre" "thrown rt e = Some err'" "r = Inl err'"
    by (auto simp: fail_fast_def)
  from assms(2,3) e(1,2) have "x = e"
    by (auto simp: clean_def list_all_iff)
  with e assms(3) show ?thesis by auto
qed

lemma upload_stage: "is_upload e \<Longrightarrow> stage e = 2"
  by (cases e rule: is_upload.cases) auto

lemma stage_not_upload: "list_all (\<lambda>e. stage e = n) evs \<Longrightarrow> n \<noteq> 2 \<Longrightarrow> \<not> list_ex is_upload evs"
  by (auto simp: list_all_iff list_ex_iff dest: upload_stage)

text \<open>
  C3. If an encoder invocation of a request fails (\<^verbatim>\<open>exec\<close> calls back with an error),
  the answer is 500 with \<^verbatim>\<open>error\<close> the message of that error and \<^verbatim>\<open>details\<close> the
  captured stderr, and the history of the request holds no upload.
\<close>

theorem encoder_failure_reply:
  assumes "create_video rt cfg env req = (reply, tr)"
    and "Exec cmd (ExecResult (Some m) out err) \<in> set tr"
  shows "reply = \<lparr>status_code = 500,
                  json = JObj [(''error'', JStr m), (''details'', JStr err)]\<rparr>
         \<and> \<not> list_ex is_upload tr"
proof -
  let ?x = "Exec cmd (ExecResult (Some m) out err)"
  have th: "thrown rt ?x = Some (JsError m (Some err))" by simp
  have in_pipeline: ?thesis
    if run: "pipeline rt cfg env imgs p [] = (r, tr0)"
      and x: "?x \<in> set tr0"
      and rep: "\<And>e. r = Inl e \<Longrightarrow> reply = failure_reply e \<and> tr = tr0 @ [ConsoleError e]"
    for imgs p r tr0
  proof -
    from run obtain A E P where
      s: "tr0 = A @ E @ P" "fail_fast rt r (A @ E @ P)"
        "list_all (\<lambda>e. stage e = 0) A" "list_all (\<lambda>e. stage e = 1) E"
        "list_all (\<lambda>e. stage e = 2) P"
      by (rule pipeline_shape) simp
    from fail_fast_thrown [OF s(2) _ th] x s(1) obtain pre where
      r: "r = Inl (JsError m (Some err))" and last: "A @ E @ P = pre @ [?x]"
      by auto
    have "P = []"
    proof (rule ccontr)
      assume "P \<noteq> []"
      then have "last (A @ E @ P) \<in> set P" by simp
      with last s(5) show False by (auto simp: list_all_iff)
    qed
    with s(3,4) have "\<not> list_ex is_upload (A @ E @ P)"
      using stage_not_upload [of 0 A] stage_not_upload [of 1 E] by (auto simp: list_ex_iff)
    with rep [OF r] s(1) show ?thesis
      by (simp add: failure_reply_def res_json_def list_ex_iff)
  qed
  from assms(1) show ?thesis
  proof (cases rule: create_video_cases)
    case (ran p imgs)
    from ran(6) have "fail_fast rt (Inr reply :: js_error + reply) tr"
      by (rule pipeline_shape) simp
    from fail_fast_thrown [OF this assms(2) th] show ?thesis by simp
  next
    case (failed p imgs e tr0)
    with assms(2) have "?x \<in> set tr0" by auto
    with failed show ?thesis by (intro in_pipeline [of imgs p "Inl e" tr0]) auto
  qed (use assms(2) in auto)
qed


lemma is_exec_stage: "is_exec e \<longleftrightarrow> stage e = 1"
  by (cases e rule: stage.cases) auto

lemma downloads_other_stage:
  "list_all (\<lambda>e. stage e = n) evs \<Longrightarrow> n \<noteq> 0 \<Longrightarrow> downloads evs = []"
  by (induction evs rule: downloads.induct) auto

lemma takeWhile_stage0:
  assumes "list_all (\<lambda>e. stage e = 0) A" "list_all (\<lambda>e. stage e = 1) E" "E \<noteq> []"
  shows "takeWhile (\<lambda>e. \<not> is_exec e) (A @ E @ rest) = A"
proof -
  from assms(2,3) obtain x xs where E: "E = x # xs" "is_exec x"
    by (cases E) (auto simp: is_exec_stage)
  have "\<forall>e \<in> set A. \<not> is_exec e"
    using assms(1) by (auto simp: list_all_iff is_exec_stage)
  then show ?thesis using E by (simp add: takeWhile_append2)
qed

text \<open>
  C7. For a request that passes the token check and validation, the downloads are made
  in request order, each image at most once and then the audio track: the downloads of
  the history are an initial part of the images' urls followed by the audio url. If
  an encoder invocation occurs, then before the first one every image was downloaded
  exactly once in request order, then the audio track, no download comes later, and
  nothing before it failed. If a download, or any other step before encoding, fails,
  no encoder invocation occurs.
\<close>

theorem downloads_before_encoding:
  assumes "create_video rt cfg env req = (reply, tr)"
    and "authorised cfg req"
    and "destructure (js_or (body req) (JObj [])) = Inr p"
    and "images p = JArr imgs" "imgs \<noteq> []" "truthy (audio p)"
  shows "(\<exists>n. downloads tr = take n (map url_of imgs @ [audio p]))
         \<and> (list_ex is_exec tr \<longrightarrow>
              downloads (takeWhile (\<lambda>e. \<not> is_exec e) tr) = map url_of imgs @ [audio p]
              \<and> downloads (takeWhile (\<lambda>e. \<not> is_exec e) tr) = downloads tr
              \<and> clean rt (takeWhile (\<lambda>e. \<not> is_exec e) tr))
         \<and> (list_ex (\<lambda>e. stage e = 0 \<and> thrown rt e \<noteq> None) tr \<longrightarrow> \<not> list_ex is_exec tr)"
proof -
  have main: ?thesis
    if run: "pipeline rt cfg env imgs p [] = (r, tr0)" and tr: "tr = tr0 @ L"
      and L: "list_all (\<lambda>e. stage e = 3) L"
    for r tr0 L
  proof -
    from run obtain A E P n where
      s: "tr0 = A @ E @ P" "fail_fast rt r (A @ E @ P)"
        "list_all (\<lambda>e. stage e = 0) A" "list_all (\<lambda>e. stage e = 1) E"
        "list_all (\<lambda>e. stage e = 2) P"
        "downloads A = take n (map url_of imgs @ [audio p])"
        "E \<noteq> [] \<longrightarrow> downloads A = map url_of imgs @ [audio p]"
      by (rule pipeline_shape) simp
    have dl: "downloads tr = downloads A"
      using tr s(1) downloads_other_stage [OF s(4)] downloads_other_stage [OF s(5)]
        downloads_other_stage [OF L] by simp
    have ex: "list_ex is_exec tr \<longleftrightarrow> E \<noteq> []"
    proof
      assume "list_ex is_exec tr"
      then obtain e where "e \<in> set tr" "stage e = 1"
        by (auto simp: list_ex_iff is_exec_stage)
      with tr s(1,3,5) L have "e \<in> set E" by (auto simp: list_all_iff)
      then show "E \<noteq> []" by auto
    next
      assume "E \<noteq> []"
      then obtain e where "e \<in> set E" by (cases E) auto
      with s(4) tr s(1) show "list_ex is_exec tr"
        by (auto simp: list_ex_iff list_all_iff is_exec_stage)
    qed
    have a: "\<exists>n. downloads tr = take n (map url_of imgs @ [audio p])"
      using dl s(6) by auto
    have b: "downloads (takeWhile (\<lambda>e. \<not> is_exec e) tr) = map url_of imgs @ [audio p]
             \<and> downloads (takeWhile (\<lambda>e. \<not> is_exec e) tr) = downloads tr
             \<and> clean rt (takeWhile (\<lambda>e. \<not> is_exec e) tr)" if "E \<noteq> []"
    proof -
      have "takeWhile (\<lambda>e. \<not> is_exec e) tr = A"
        using takeWhile_stage0 [OF s(3,4) that, of "P @ L"] tr s(1) by simp
      moreover have "clean rt A"
        using fail_fast_clean_front [OF s(2)] that by simp
      ultimately show ?thesis using s(7) that dl by simp
    qed
    have c: "E = []" if "list_ex (\<lambda>e. stage e = 0 \<and> thrown rt e \<noteq> None) tr"
    proof -
      from that obtain x err where x: "x \<in> set tr" "stage x = 0" "thrown rt x = Some err"
        by (auto simp: list_ex_iff)
      with tr s(1,4,5) L have xA: "x \<in> set A" by (auto simp: list_all_iff)
      then have "x \<in> set (A @ E @ P)" by simp
      from fail_fast_thrown [OF s(2) this x(3)] obtain pre where
        last: "A @ E @ P = pre @ [x]" by auto
      show ?thesis
      proof (rule ccontr)
        assume "E \<noteq> []"
        then have "last (A @ E @ P) \<in> set E \<union> set P"
          by (cases "P = []") auto
        with last have "x \<in> set E \<union> set P" by simp
        with s(4,5) x(2) show False by (auto simp: list_all_iff)
      qed
    qed
    from a b c ex show ?thesis by blast
  qed
  from assms(1) show ?thesis
  proof (cases rule: create_video_cases)
    case unauthorised
    with assms(2) show ?thesis by simp
  next
    case (no_images p')
    with assms(3-5) show ?thesis by (cases imgs) auto
  next
    case (no_audio p' x xs)
    with assms(3,6) show ?thesis by auto
  next
    case (ran p' imgs')
    with assms(3,4) have "pipeline rt cfg env imgs p [] = (Inr reply, tr)" by auto
    then show ?thesis by (rule main [where L = "[]"]) simp_all
  next
    case (failed p' imgs' err tr0)
    with assms(3,4) have "pipeline rt cfg env imgs p [] = (Inl err, tr0)" by auto
    then show ?thesis using failed(8) by (rule main [where L = "[ConsoleError err]"]) simp
  qed
qed

lemma await_Inr: "m tr = (Inr a, tr1) \<Longrightarrow> await m f tr = f a tr1"
  by (simp add: await_def)

lemma await_Inl: "m tr = (Inl e, tr1) \<Longrightarrow> await m f tr = (Inl e, tr1)"
  by (simp add: await_def)

lemma publish_absent:
  "absent (SUPABASE_URL cfg) \<or> absent (SUPABASE_SERVICE_ROLE_KEY cfg) \<Longrightarrow>
   publish rt cfg env out final tr = (Inl missing_config, tr)"
  by (auto simp: publish_def absent_def split: option.splits)

text \<open>
  C8. When the storage URL or the service key is absent (unset or empty), a request that
  passes the token check and validation, and whose downloads and two encoder passes
  succeed (none of which looks at the storage configuration), has both passes run to
  completion and is then answered 500 with the configuration error; the body has the
  members \<^verbatim>\<open>error\<close> and \<^verbatim>\<open>details\<close> only, so no url, and nothing is uploaded.
\<close>

theorem missing_storage_config:
  assumes "absent (SUPABASE_URL cfg) \<or> absent (SUPABASE_SERVICE_ROLE_KEY cfg)"
    and "authorised cfg req"
    and "destructure (js_or (body req) (JObj [])) = Inr p"
    and "images p = JArr imgs" "imgs \<noteq> []" "truthy (audio p)"
    and "fetch_assets rt env imgs (audio p) [] = (Inr (wd, ls, af), tr1)"
    and "encode rt env wd ls af (width p) (height p) tr1 = (Inr final, tr2)"
  shows "create_video rt cfg env req =
           (\<lparr>status_code = 500,
             json = JObj [(''error'', JStr ''Missing SUPABASE_URL or SUPABASE_SERVICE_ROLE_KEY''),
                          (''details'', JStr [])]\<rparr>,
            tr2 @ [ConsoleError missing_config])
         \<and> (\<exists>pre c1 r1 c2 r2. tr2 = pre @ [Exec c1 r1, Exec c2 r2]
               \<and> exec_err r1 = None \<and> exec_err r2 = None)
         \<and> \<not> list_ex is_upload (snd (create_video rt cfg env req))"
proof -
  have 1: "await (fetch_assets rt env imgs (audio p)) F [] = F (wd, ls, af) tr1" for F :: "_ \<Rightarrow> reply proc"
    using assms(7) by (rule await_Inr)
  have 2: "await (encode rt env wd ls af (width p) (height p)) F tr1 = F final tr2" for F :: "_ \<Rightarrow> reply proc"
    using assms(8) by (rule await_Inr)
  have 3: "await (publish rt cfg env (outputPath p) final) F tr2 = (Inl missing_config, tr2)"
    for F :: "_ \<Rightarrow> reply proc"
    using publish_absent [OF assms(1)] by (rule await_Inl)
  have pipe: "pipeline rt cfg env imgs p [] = (Inl missing_config, tr2)"
    unfolding pipeline_def by (simp add: 1 2 3)
  have "handler_try rt cfg env req [] = (Inl missing_config, tr2)"
    using assms(2-6) pipe by (simp add: handler_try_def)
  then have cv: "create_video rt cfg env req =
      (failure_reply missing_config, tr2 @ [ConsoleError missing_config])"
    by (simp add: create_video_def)
  from encode_spec [OF assms(8)] obtain ws c1 r1 c2 r2 where
    e: "tr2 = tr1 @ ws @ [Exec c1 r1, Exec c2 r2]" "exec_err r1 = None" "exec_err r2 = None"
    by auto
  then have ex: "\<exists>pre c1 r1 c2 r2. tr2 = pre @ [Exec c1 r1, Exec c2 r2]
               \<and> exec_err r1 = None \<and> exec_err r2 = None"
    by (metis append_assoc)
  from pipe obtain A E P where
    s: "tr2 = [] @ A @ E @ P" "list_all (\<lambda>e. stage e = 0) A" "list_all (\<lambda>e. stage e = 1) E"
      "absent (SUPABASE_URL cfg) \<or> absent (SUPABASE_SERVICE_ROLE_KEY cfg) \<longrightarrow> P = []"
    by (rule pipeline_shape)
  with assms(1) have "\<not> list_ex is_upload tr2"
    using stage_not_upload [of 0 A] stage_not_upload [of 1 E] by (auto simp: list_ex_iff)
  with cv ex show ?thesis
    by (simp add: failure_reply_def res_json_def missing_config_def)
qed

lemma object_url_shape:
  assumes "object_url rt base seg bucket key = Inr u"
  shows "\<exists>b s k. encodeURIComponent bucket = Inr b \<and> to_string rt key = Inr s
           \<and> encodeURIComponent s = Inr k \<and> u = base @ seg @ b @ ''/'' @ k"
  using assms by (auto simp: object_url_def and_then_def split: sum.splits)

lemma pipeline_success:
  assumes "pipeline rt cfg env imgs p tr = (Inr rep, tr')"
  obtains pub buf base key up res pre where
    "rep = success_reply p (length imgs) pub buf"
    "SUPABASE_URL cfg = Some base" "SUPABASE_SERVICE_ROLE_KEY cfg = Some key"
    "uploadUrl rt cfg base (outputPath p) = Inr up"
    "publicUrl rt cfg base (outputPath p) = Inr pub"
    "tr' = pre @ [ReadFile (path_join (workDir_of (date_now env tr)) ''final.mp4'') (Inr buf),
                  Fetch (JStr up) (Some (upload_init key buf)) (Inr res)]"
    "ok res"
proof -
  from pipeline_spec [OF assms] obtain A E P where
    a: "tr' = tr @ A @ E @ P" and
    b: "\<forall>rep'. (Inr rep :: js_error + reply) = Inr rep' \<longrightarrow>
         (\<exists>pub buf base key up res wd.
                    rep' = success_reply p (length imgs) pub buf
                    \<and> SUPABASE_URL cfg = Some base \<and> SUPABASE_SERVICE_ROLE_KEY cfg = Some key
                    \<and> uploadUrl rt cfg base (outputPath p) = Inr up
                    \<and> publicUrl rt cfg base (outputPath p) = Inr pub
                    \<and> P = [ReadFile (path_join wd ''final.mp4'') (Inr buf),
                            Fetch (JStr up) (Some (upload_init key buf)) (Inr res)]
                    \<and> wd = workDir_of (date_now env tr)
                    \<and> ok res)"
    by (elim exE conjE) (rule that; assumption)
  from b obtain pub buf base key up res where
    c: "rep = success_reply p (length imgs) pub buf"
      "SUPABASE_URL cfg = Some base" "SUPABASE_SERVICE_ROLE_KEY cfg = Some key"
      "uploadUrl rt cfg base (outputPath p) = Inr up"
      "publicUrl rt cfg base (outputPath p) = Inr pub"
      "P = [ReadFile (path_join (workDir_of (date_now env tr)) ''final.mp4'') (Inr buf),
            Fetch (JStr up) (Some (upload_init key buf)) (Inr res)]"
      "ok res"
    by blast
  from a c(6) have "tr' = (tr @ A @ E) @
      [ReadFile (path_join (workDir_of (date_now env tr)) ''final.mp4'') (Inr buf),
       Fetch (JStr up) (Some (upload_init key buf)) (Inr res)]"
    by simp
  with c show ?thesis by (intro that [of pub buf base key up "tr @ A @ E" res])
qed

section \<open>The route on sample requests\<close>

lemma padStart3_1: "padStart3 [c] = [CHR ''0'', CHR ''0'', c]"
  by (simp add: padStart3_def numeral_2_eq_2)

lemmas eval_defs =
  await_def lift_def throw_def resolve_def and_then_def
  Date_now_def mkdir_def fetch_def writeFile_def readFile_def run_def
  create_video_def handler_try_def authorised_def destructure_def js_or_def default_to_def
  pipeline_def fetch_assets_def encode_def publish_def downloadToFile_def image_duration_def
  path_join_def workDir_of_def show_int_def show_nat.simps digit_char_def padStart3_1
  concatContent_def num_to_string_def video_filter_def uploadUrl_def publicUrl_def
  object_url_def encodeURIComponent_def percent_def unreserved_def hex_digit_def
  bucket_name_def ok_def upload_init_def success_reply_def failure_reply_def error_reply_def res_json_def
  missing_config_def absent_def Let_def
  sample_runtime_def sample_config_def sample_env_def sample_request_def sample_response_def
  broken_encoder_env_def offline_env_def sample_filter_def sample_prepared_def sample_render_def sample_mux_def
  sample_images_def sample_params_def bare_request_def token_config_def keyless_config_def

lemma sample_run:
  "create_video sample_runtime sample_config sample_env sample_request =
     (\<lparr>status_code = 200,
       json = JObj
         [(''success'', JBool True),
          (''url'', JStr ''https://db.example/storage/v1/object/public/videos/stories%2Foutput.mp4''),
          (''size'', JNum (Fin 5)), (''frames'', JNum (Fin 2)),
          (''fps'', JNum (Fin 25)), (''width'', JNum (Fin 1920)),
          (''height'', JNum (Fin 1080))]\<rparr>,
      sample_prepared @
      [Exec sample_render (ExecResult None [] []),
       Exec sample_mux (ExecResult None [] []),
       ReadFile ''/tmp/work-1700000000000/final.mp4'' (Inr ''movie''),
       Fetch (JStr ''https://db.example/storage/v1/object/videos/stories%2Foutput.mp4'')
         (Some (upload_init ''key'' ''movie'')) (Inr sample_response)])"
  by (simp add: eval_defs)

lemma broken_run:
  "create_video sample_runtime sample_config broken_encoder_env sample_request =
     (\<lparr>status_code = 500,
       json = JObj [(''error'', JStr ''Command failed''), (''details'', JStr ''Invalid data'')]\<rparr>,
      sample_prepared @
      [Exec sample_render (ExecResult (Some ''Command failed'') [] ''Invalid data''),
       ConsoleError (JsError ''Command failed'' (Some ''Invalid data''))])"
  by (simp add: eval_defs)

lemma offline_run:
  "create_video sample_runtime sample_config offline_env sample_request =
     (\<lparr>status_code = 500,
       json = JObj [(''error'', JStr ''Download failed: http://a/1.png -> 404''),
                    (''details'', JStr [])]\<rparr>,
      [DateNow 1700000000000,
       Mkdir ''/tmp/work-1700000000000'' None,
       Fetch (JStr ''http://a/1.png'') None (Inr \<lparr>status = 404, res_body = Inr ''Not Found''\<rparr>),
       ConsoleError (JsError ''Download failed: http://a/1.png -> 404'' None)])"
  by (simp add: eval_defs)

lemma sample_destructure:
  "destructure (js_or (body sample_request) (JObj [])) = Inr sample_params"
  by (simp add: eval_defs)

lemma sample_fetch_assets:
  "fetch_assets sample_runtime sample_env sample_images (audio sample_params) [] =
     (Inr (''/tmp/work-1700000000000'',
           [\<lparr>img_file = ''/tmp/work-1700000000000/img_000.png'', img_duration = Fin 2\<rparr>,
            \<lparr>img_file = ''/tmp/work-1700000000000/img_001.png'', img_duration = Fin 3\<rparr>],
           ''/tmp/work-1700000000000/audio.mp3''),
      butlast sample_prepared)"
  by (simp add: eval_defs)

lemma sample_encode:
  "encode sample_runtime sample_env ''/tmp/work-1700000000000''
     [\<lparr>img_file = ''/tmp/work-1700000000000/img_000.png'', img_duration = Fin 2\<rparr>,
      \<lparr>img_file = ''/tmp/work-1700000000000/img_001.png'', img_duration = Fin 3\<rparr>]
     ''/tmp/work-1700000000000/audio.mp3'' (width sample_params) (height sample_params)
     (butlast sample_prepared) =
     (Inr ''/tmp/work-1700000000000/final.mp4'',
      sample_prepared @
      [Exec sample_render (ExecResult None [] []), Exec sample_mux (ExecResult None [] [])])"
  by (simp add: eval_defs)



theorem encoder_failure_reply_witness:
  "Exec sample_render (ExecResult (Some ''Command failed'') [] ''Invalid data'')
     \<in> set (snd (create_video sample_runtime sample_config broken_encoder_env sample_request))
   \<and> fst (create_video sample_runtime sample_config broken_encoder_env sample_request) =
       \<lparr>status_code = 500,
        json = JObj [(''error'', JStr ''Command failed''), (''details'', JStr ''Invalid data'')]\<rparr>
   \<and> \<not> list_ex is_upload
         (snd (create_video sample_runtime sample_config broken_encoder_env sample_request))"
proof -
  have x: "Exec sample_render (ExecResult (Some ''Command failed'') [] ''Invalid data'')
     \<in> set (snd (create_video sample_runtime sample_config broken_encoder_env sample_request))"
    by (simp add: broken_run)
  from encoder_failure_reply [OF prod.collapse [symmetric] x] x show ?thesis
    by simp
qed

theorem downloads_before_encoding_witness:
  "list_ex is_exec (snd (create_video sample_runtime sample_config sample_env sample_request))
   \<and> downloads (takeWhile (\<lambda>e. \<not> is_exec e)
        (snd (create_video sample_runtime sample_config sample_env sample_request))) =
       [JStr ''http://a/1.png'', JStr ''http://a/2.png'', JStr ''http://a/a.mp3'']
   \<and> downloads (snd (create_video sample_runtime sample_config sample_env sample_request)) =
       [JStr ''http://a/1.png'', JStr ''http://a/2.png'', JStr ''http://a/a.mp3'']
   \<and> clean sample_runtime (takeWhile (\<lambda>e. \<not> is_exec e)
        (snd (create_video sample_runtime sample_config sample_env sample_request)))
   \<and> list_ex (\<lambda>e. stage e = 0 \<and> thrown sample_runtime e \<noteq> None)
       (snd (create_video sample_runtime sample_config offline_env sample_request))
   \<and> \<not> list_ex is_exec
       (snd (create_video sample_runtime sample_config offline_env sample_request))"
proof -
  have a: "authorised sample_config sample_request"
    by (simp add: authorised_def sample_config_def)
  have i: "images sample_params = JArr sample_images" "sample_images \<noteq> []"
    "truthy (audio sample_params)"
    by (simp_all add: sample_params_def sample_images_def)
  have e: "list_ex is_exec
      (snd (create_video sample_runtime sample_config sample_env sample_request))"
    by (simp add: sample_run)
  have u: "map url_of sample_images @ [audio sample_params] =
      [JStr ''http://a/1.png'', JStr ''http://a/2.png'', JStr ''http://a/a.mp3'']"
    by (simp add: sample_images_def sample_params_def url_of_def)
  have r: "create_video sample_runtime sample_config sample_env sample_request =
      (fst (create_video sample_runtime sample_config sample_env sample_request),
       snd (create_video sample_runtime sample_config sample_env sample_request))"
    by simp
  from downloads_before_encoding [OF r a sample_destructure i] e
  have "downloads (takeWhile (\<lambda>e. \<not> is_exec e)
          (snd (create_video sample_runtime sample_config sample_env sample_request))) =
        map url_of sample_images @ [audio sample_params]
      \<and> downloads (takeWhile (\<lambda>e. \<not> is_exec e)
          (snd (create_video sample_runtime sample_config sample_env sample_request))) =
        downloads (snd (create_video sample_runtime sample_config sample_env sample_request))
      \<and> clean sample_runtime (takeWhile (\<lambda>e. \<not> is_exec e)
          (snd (create_video sample_runtime sample_config sample_env sample_request)))"
    by blast
  with e have ok_part:
    "list_ex is_exec (snd (create_video sample_runtime sample_config sample_env sample_request))
     \<and> downloads (takeWhile (\<lambda>e. \<not> is_exec e)
          (snd (create_video sample_runtime sample_config sample_env sample_request))) =
         [JStr ''http://a/1.png'', JStr ''http://a/2.png'', JStr ''http://a/a.mp3'']
     \<and> downloads (snd (create_video sample_runtime sample_config sample_env sample_request)) =
         [JStr ''http://a/1.png'', JStr ''http://a/2.png'', JStr ''http://a/a.mp3'']
     \<and> clean sample_runtime (takeWhile (\<lambda>e. \<not> is_exec e)
          (snd (create_video sample_runtime sample_config sample_env sample_request)))"
    unfolding u by metis
  have r': "create_video sample_runtime sample_config offline_env sample_request =
      (fst (create_video sample_runtime sample_config offline_env sample_request),
       snd (create_video sample_runtime sample_config offline_env sample_request))"
    by simp
  have f: "list_ex (\<lambda>e. stage e = 0 \<and> thrown sample_runtime e \<noteq> None)
       (snd (create_video sample_runtime sample_config offline_env sample_request))"
    by (simp add: offline_run ok_def)
  from downloads_before_encoding [OF r' a sample_destructure i] f
  have "\<not> list_ex is_exec
       (snd (create_video sample_runtime sample_config offline_env sample_request))"
    by blast
  with ok_part f show ?thesis by blast
qed

theorem missing_storage_config_witness:
  "absent (SUPABASE_SERVICE_ROLE_KEY keyless_config)
   \<and> create_video sample_runtime keyless_config sample_env sample_request =
       (\<lparr>status_code = 500,
         json = JObj [(''error'', JStr ''Missing SUPABASE_URL or SUPABASE_SERVICE_ROLE_KEY''),
                      (''details'', JStr [])]\<rparr>,
        (sample_prepared @
          [Exec sample_render (ExecResult None [] []), Exec sample_mux (ExecResult None [] [])])
        @ [ConsoleError missing_config])
   \<and> \<not> list_ex is_upload
         (snd (create_video sample_runtime keyless_config sample_env sample_request))"
proof -
  have k: "absent (SUPABASE_URL keyless_config) \<or> absent (SUPABASE_SERVICE_ROLE_KEY keyless_config)"
    "absent (SUPABASE_SERVICE_ROLE_KEY keyless_config)"
    by (simp_all add: absent_def keyless_config_def)
  have a: "authorised keyless_config sample_request"
    by (simp add: authorised_def keyless_config_def sample_config_def)
  have i: "images sample_params = JArr sample_images" "sample_images \<noteq> []"
    "truthy (audio sample_params)"
    by (simp_all add: sample_params_def sample_images_def)
  from missing_storage_config
    [OF k(1) a sample_destructure i sample_fetch_assets sample_encode] k(2)
  show ?thesis by blast
qed

section \<open>The workspace is named by the clock\<close>

lemma digit_char_inj: "a < 10 \<Longrightarrow> b < 10 \<Longrightarrow> digit_char a = digit_char b \<Longrightarrow> a = b"
proof -
  assume a: "a < 10" and b: "b < 10" and eq: "digit_char a = digit_char b"
  have d: "distinct ''0123456789''" by simp
  have "a < length ''0123456789''" "b < length ''0123456789''" using a b by simp_all
  with d eq show "a = b" unfolding digit_char_def by (simp only: nth_eq_iff_index_eq)
qed

lemma digit_char_digit: "d < 10 \<Longrightarrow> digit_char d \<in> set ''0123456789''"
  unfolding digit_char_def by (rule nth_mem) simp

lemma show_nat_digits: "set (show_nat n) \<subseteq> set ''0123456789''"
proof (induction n rule: show_nat.induct)
  case (1 n)
  show ?case
  proof (cases "n < 10")
    case True
    then show ?thesis using digit_char_digit [of n] by (subst show_nat.simps) simp
  next
    case False
    have "n mod 10 < 10" by simp
    from digit_char_digit [OF this] 1 False show ?thesis
      by (subst show_nat.simps) simp
  qed
qed

lemma show_nat_nonempty: "show_nat n \<noteq> []"
  by (subst show_nat.simps) simp

lemma show_nat_inj: "show_nat n = show_nat m \<Longrightarrow> n = m"
proof (induction n arbitrary: m rule: show_nat.induct)
  case (1 n)
  show ?case
  proof (cases "n < 10")
    case n: True
    show ?thesis
    proof (cases "m < 10")
      case True
      with n "1.prems" show ?thesis
        by (simp add: show_nat_digit digit_char_inj)
    next
      case False
      then have "show_nat m = show_nat (m div 10) @ [digit_char (m mod 10)]"
        by (subst show_nat.simps) simp
      with n "1.prems" show_nat_nonempty [of "m div 10"] show ?thesis
        by (simp add: show_nat_digit)
    qed
  next
    case n: False
    then have sn: "show_nat n = show_nat (n div 10) @ [digit_char (n mod 10)]"
      by (subst show_nat.simps) simp
    show ?thesis
    proof (cases "m < 10")
      case True
      with sn "1.prems" show_nat_nonempty [of "n div 10"] show ?thesis
        by (simp add: show_nat_digit)
    next
      case False
      then have "show_nat m = show_nat (m div 10) @ [digit_char (m mod 10)]"
        by (subst show_nat.simps) simp
      with sn "1.prems" have
        a: "show_nat (n div 10) = show_nat (m div 10)" and
        b: "digit_char (n mod 10) = digit_char (m mod 10)"
        by simp_all
      from "1.IH" [OF n a] have "n div 10 = m div 10" .
      moreover from b have "n mod 10 = m mod 10"
        by (intro digit_char_inj) simp_all
      ultimately show ?thesis
        by (metis div_mult_mod_eq)
    qed
  qed
qed

lemma show_int_inj: "show_int i = show_int j \<Longrightarrow> i = j"
proof -
  assume eq: "show_int i = show_int j"
  have nm: "CHR ''-'' # show_nat a \<noteq> show_nat b" for a b
  proof
    assume "CHR ''-'' # show_nat a = show_nat b"
    then have "CHR ''-'' \<in> set (show_nat b)" by (metis list.set_intros(1))
    with show_nat_digits [of b] show False by auto
  qed
  show "i = j"
  proof (cases "i < 0"; cases "j < 0")
    assume "i < 0" "j < 0"
    with eq have "nat (- i) = nat (- j)" by (simp add: show_int_def show_nat_inj)
    with \<open>i < 0\<close> \<open>j < 0\<close> show ?thesis by simp
  next
    assume "i < 0" "\<not> j < 0"
    with eq nm show ?thesis by (simp add: show_int_def)
  next
    assume "\<not> i < 0" "j < 0"
    with eq nm [of "nat (- j)" "nat i"] show ?thesis by (simp add: show_int_def)
  next
    assume "\<not> i < 0" "\<not> j < 0"
    with eq have "nat i = nat j" by (simp add: show_int_def show_nat_inj)
    with \<open>\<not> i < 0\<close> \<open>\<not> j < 0\<close> show ?thesis by simp
  qed
qed

lemma workDir_of_inj: "workDir_of s = workDir_of t \<longleftrightarrow> s = t"
  by (auto simp: workDir_of_def dest: show_int_inj)

lemma workspace_of_run:
  assumes "accepted cfg req"
  shows "workspace_of (snd (create_video rt cfg env req)) = Some (workDir_of (date_now env []))"
proof -
  obtain reply tr where run: "create_video rt cfg env req = (reply, tr)"
    by (cases "create_video rt cfg env req")
  have ws: "workspace_of (A @ rest) = Some w" if "workspace_of A = Some w" for A rest w
    using that by (induction A rule: workspace_of.induct) auto
  have main: "workspace_of (tr0 @ L) = Some (workDir_of (date_now env []))"
    if "pipeline rt cfg env imgs p [] = (r, tr0)" for imgs p r tr0 L
  proof -
    from that obtain A E P where "tr0 = [] @ A @ E @ P"
      "workspace_of A = Some (workDir_of (date_now env []))"
      by (rule pipeline_shape)
    then show ?thesis using ws [of A _ "E @ P @ L"] by simp
  qed
  from run show ?thesis
  proof (cases rule: create_video_cases)
    case (ran p imgs)
    from main [OF ran(6), of "[]"] run show ?thesis by simp
  next
    case (failed p imgs err tr0)
    from main [OF failed(6), of "[ConsoleError err]"] run failed(8) show ?thesis by simp
  qed (use assms in \<open>auto simp: accepted_def no_Cons_iff split: jsval.splits\<close>)
qed

lemma accepted_samples:
  "accepted sample_config sample_request" "accepted sample_config other_request"
  by (simp_all add: accepted_def eval_defs other_request_def)

section \<open>The duration of an image\<close>

text \<open>
  C9. The duration of an image is \<^verbatim>\<open>Number(duration || 3)\<close>. A duration that is absent,
  \<^verbatim>\<open>null\<close>, the number 0 or the empty string, or any other falsy value, gives 3, so
  a requested 0 is replaced by 3. A truthy duration is converted with \<^verbatim>\<open>Number\<close>: a
  non-empty string gives whatever number the runtime reads from it, \<^verbatim>\<open>NaN\<close> included,
  and is not rejected. These are the durations of the local images the download loop
  returns.
\<close>

theorem duration_defaults_to_three:
  "(get_member img ''duration'' = Inr d \<and> d \<in> {JUndefined, JNull, JNum (Fin 0), JStr []}
      \<longrightarrow> image_duration rt img = Inr (Fin 3))
   \<and> (get_member img ''duration'' = Inr d \<and> \<not> truthy d
      \<longrightarrow> image_duration rt img = Inr (Fin 3))
   \<and> (get_member img ''duration'' = Inr d \<and> truthy d
      \<longrightarrow> image_duration rt img = to_number rt d)
   \<and> (get_member img ''duration'' = Inr (JStr s) \<and> s \<noteq> []
      \<longrightarrow> image_duration rt img = Inr (string_to_number rt s))
   \<and> (download_images rt env workDir imgs i [] tr = (Inr localImgs, tr')
      \<longrightarrow> list_all2 (\<lambda>img l. image_duration rt img = Inr (img_duration l)) imgs localImgs)"
proof (intro conjI impI)
  assume "download_images rt env workDir imgs i [] tr = (Inr localImgs, tr')"
  from download_images_spec [OF this]
  show "list_all2 (\<lambda>img l. image_duration rt img = Inr (img_duration l)) imgs localImgs"
    by auto
qed (auto simp: image_duration_def js_or_def)

theorem duration_defaults_to_three_witness:
  "image_duration sample_runtime zero_duration_image = Inr (Fin 3)
   \<and> image_duration sample_runtime text_duration_image = Inr NaN
   \<and> image_duration sample_runtime (JObj [(''url'', JStr ''http://a/2.png'')]) = Inr (Fin 3)
   \<and> download_images sample_runtime sample_env ''/tmp/work-1''
        [zero_duration_image, text_duration_image] 0 [] [] =
      (Inr [\<lparr>img_file = ''/tmp/work-1/img_000.png'', img_duration = Fin 3\<rparr>,
            \<lparr>img_file = ''/tmp/work-1/img_001.png'', img_duration = NaN\<rparr>],
       [Fetch (JStr ''http://a/1.png'') None (Inr sample_response),
        WriteFile ''/tmp/work-1/img_000.png'' ''bytes'' None,
        Fetch (JStr ''http://a/2.png'') None (Inr sample_response),
        WriteFile ''/tmp/work-1/img_001.png'' ''bytes'' None])"
proof -
  have run: "download_images sample_runtime sample_env ''/tmp/work-1''
        [zero_duration_image, text_duration_image] 0 [] [] =
      (Inr [\<lparr>img_file = ''/tmp/work-1/img_000.png'', img_duration = Fin 3\<rparr>,
            \<lparr>img_file = ''/tmp/work-1/img_001.png'', img_duration = NaN\<rparr>],
       [Fetch (JStr ''http://a/1.png'') None (Inr sample_response),
        WriteFile ''/tmp/work-1/img_000.png'' ''bytes'' None,
        Fetch (JStr ''http://a/2.png'') None (Inr sample_response),
        WriteFile ''/tmp/work-1/img_001.png'' ''bytes'' None])"
    by (simp add: eval_defs zero_duration_image_def text_duration_image_def)
  from duration_defaults_to_three
    [of zero_duration_image "JNum (Fin 0)" sample_runtime "[]"]
    duration_defaults_to_three
    [of text_duration_image "JStr ''soon''" sample_runtime "''soon''"]
    duration_defaults_to_three
    [of "JObj [(''url'', JStr ''http://a/2.png'')]" JUndefined sample_runtime "[]"]
    run
  show ?thesis
    by (simp add: zero_duration_image_def text_duration_image_def sample_runtime_def)
qed

section \<open>The two urls of an object\<close>

lemma hex_digit_not_slash: "n < 16 \<Longrightarrow> hex_digit n \<noteq> CHR ''/''"
proof -
  assume "n < 16"
  then have "hex_digit n \<in> set ''0123456789ABCDEF''"
    unfolding hex_digit_def by (intro nth_mem) simp
  then show ?thesis by auto
qed

lemma percent_no_slash: "CHR ''/'' \<notin> set (percent c)"
proof (cases "unreserved c")
  case True
  then have "c \<noteq> CHR ''/''" by (auto simp: unreserved_def)
  with True show ?thesis by (simp add: percent_def)
next
  case False
  have "(of_char c :: nat) = of_char c mod 256" by simp
  also have "\<dots> < 256" by (rule mod_less_divisor) simp
  finally have "of_char c div 16 < (16 :: nat)" by arith
  then have "hex_digit (of_char c div 16) \<noteq> CHR ''/''"
    by (rule hex_digit_not_slash)
  moreover have "hex_digit (of_char c mod 16) \<noteq> CHR ''/''"
    by (rule hex_digit_not_slash) simp
  ultimately show ?thesis
    using False by (auto simp: percent_def)
qed

lemma percent_slash: "percent CHR ''/'' = ''%2F''"
  by (simp add: percent_def unreserved_def hex_digit_def)

lemma encoded_no_slash: "encodeURIComponent s = Inr k \<Longrightarrow> CHR ''/'' \<notin> set k"
  using percent_no_slash by (auto simp: encodeURIComponent_def split: if_splits)

lemma lone_surrogate_slash:
  "lone_surrogate (x @ CHR ''/'' # y) \<longleftrightarrow> lone_surrogate x \<or> lone_surrogate y"
proof (induction x)
  case Nil
  then show ?case by (cases y) simp_all
next
  case (Cons a x)
  then show ?case by (cases x) auto
qed

lemma encode_slash:
  assumes "encodeURIComponent (x @ ''/'' @ y) = Inr k"
  shows "\<exists>x' y'. encodeURIComponent x = Inr x' \<and> encodeURIComponent y = Inr y'
           \<and> k = x' @ ''%2F'' @ y'"
  using assms
  by (auto simp: encodeURIComponent_def lone_surrogate_slash percent_slash split: if_splits)

text \<open>
  C10. Where the upload url can be built, it and the public url are the base, their
  path segment, the encoded bucket, a slash and the encoded key, with the same encoded
  bucket and key in both. Neither encoded part holds a slash: every slash of the key is
  \<^verbatim>\<open>%2F\<close> in both urls, and the default key \<^verbatim>\<open>stories/output.mp4\<close> is encoded as
  \<^verbatim>\<open>stories%2Foutput.mp4\<close>.
\<close>

theorem urls_agree_and_encode_slashes:
  assumes "uploadUrl rt cfg base key = Inr up"
  shows "\<exists>b s k. encodeURIComponent (bucket_name cfg) = Inr b \<and> to_string rt key = Inr s
           \<and> encodeURIComponent s = Inr k
           \<and> up = base @ ''/storage/v1/object/'' @ b @ ''/'' @ k
           \<and> publicUrl rt cfg base key = Inr (base @ ''/storage/v1/object/public/'' @ b @ ''/'' @ k)
           \<and> CHR ''/'' \<notin> set b \<and> CHR ''/'' \<notin> set k
           \<and> (\<forall>x y. s = x @ ''/'' @ y \<longrightarrow>
                 (\<exists>x' y'. encodeURIComponent x = Inr x' \<and> encodeURIComponent y = Inr y'
                    \<and> k = x' @ ''%2F'' @ y'))
           \<and> encodeURIComponent ''stories/output.mp4'' = Inr ''stories%2Foutput.mp4''"
proof -
  from object_url_shape [OF assms [unfolded uploadUrl_def]] obtain b s k where
    u: "encodeURIComponent (bucket_name cfg) = Inr b" "to_string rt key = Inr s"
      "encodeURIComponent s = Inr k" "up = base @ ''/storage/v1/object/'' @ b @ ''/'' @ k"
    by blast
  have p: "publicUrl rt cfg base key = Inr (base @ ''/storage/v1/object/public/'' @ b @ ''/'' @ k)"
    using u(1-3) by (simp add: publicUrl_def object_url_def)
  have sl: "\<exists>x' y'. encodeURIComponent x = Inr x' \<and> encodeURIComponent y = Inr y'
                    \<and> k = x' @ ''%2F'' @ y'" if "s = x @ ''/'' @ y" for x y
    using encode_slash [of x y k] u(3) that by simp
  have d: "encodeURIComponent ''stories/output.mp4'' = Inr ''stories%2Foutput.mp4''"
    by (simp add: encodeURIComponent_def percent_def unreserved_def hex_digit_def)
  from u p sl d encoded_no_slash [OF u(1)] encoded_no_slash [OF u(3)] show ?thesis
    by blast
qed

theorem urls_agree_and_encode_slashes_witness:
  "uploadUrl sample_runtime sample_config ''https://db.example'' (JStr ''a/b c/d.mp4'') =
     Inr ''https://db.example/storage/v1/object/videos/a%2Fb%20c%2Fd.mp4''
   \<and> publicUrl sample_runtime sample_config ''https://db.example'' (JStr ''a/b c/d.mp4'') =
     Inr ''https://db.example/storage/v1/object/public/videos/a%2Fb%20c%2Fd.mp4''
   \<and> encodeURIComponent ''b c/d.mp4'' = Inr ''b%20c%2Fd.mp4''"
proof -
  have u: "uploadUrl sample_runtime sample_config ''https://db.example'' (JStr ''a/b c/d.mp4'') =
     Inr ''https://db.example/storage/v1/object/videos/a%2Fb%20c%2Fd.mp4''"
    by (simp add: eval_defs)
  have e: "encodeURIComponent ''videos'' = Inr ''videos''"
    "encodeURIComponent ''a/b c/d.mp4'' = Inr ''a%2Fb%20c%2Fd.mp4''"
    "encodeURIComponent ''a'' = Inr ''a''"
    "bucket_name sample_config = ''videos''"
    by (simp_all add: eval_defs)
  from urls_agree_and_encode_slashes [OF u] obtain b s k where
    r: "encodeURIComponent (bucket_name sample_config) = Inr b"
      "to_string sample_runtime (JStr ''a/b c/d.mp4'') = Inr s"
      "encodeURIComponent s = Inr k"
      "publicUrl sample_runtime sample_config ''https://db.example'' (JStr ''a/b c/d.mp4'') =
         Inr (''https://db.example'' @ ''/storage/v1/object/public/'' @ b @ ''/'' @ k)"
      "\<forall>x y. s = x @ ''/'' @ y \<longrightarrow>
          (\<exists>x' y'. encodeURIComponent x = Inr x' \<and> encodeURIComponent y = Inr y'
             \<and> k = x' @ ''%2F'' @ y')"
    by blast
  from r(1,2,3) e have bk: "b = ''videos''" "s = ''a/b c/d.mp4''" "k = ''a%2Fb%20c%2Fd.mp4''"
    by simp_all
  from r(5) bk(2) have "\<exists>x' y'. encodeURIComponent ''a'' = Inr x'
      \<and> encodeURIComponent ''b c/d.mp4'' = Inr y' \<and> k = x' @ ''%2F'' @ y'"
    by simp
  with e(3) bk(3) have "encodeURIComponent ''b c/d.mp4'' = Inr ''b%20c%2Fd.mp4''"
    by auto
  with u r(4) bk show ?thesis by simp
qed

section \<open>Publishing twice\<close>

text \<open>
  C6. In a world whose storage accepts every write that carries \<^verbatim>\<open>x-upsert: true\<close>,
  whatever it already holds: when publishing an artifact under an output path has
  succeeded, publishing the same artifact under the same path again succeeds too, with
  the same public url. Both uploads are a \<^verbatim>\<open>POST\<close> of the artifact to the same
  upload url, and both carry \<^verbatim>\<open>x-upsert: true\<close>.
\<close>

theorem publish_again_same_url:
  assumes "\<forall>h url i. map_of (init_headers i) ''x-upsert'' = Some ''true'' \<longrightarrow>
             (\<exists>res. net_fetch env h url (Some i) = Inr res \<and> ok res)"
    and "publish rt cfg env outPath finalFile tr = (Inr (pub, fileBuffer), tr1)"
    and "fs_readFile env tr1 finalFile = Inr fileBuffer"
  shows "\<exists>key up res1 res2.
           SUPABASE_SERVICE_ROLE_KEY cfg = Some key
           \<and> tr1 = tr @ [ReadFile finalFile (Inr fileBuffer),
                          Fetch (JStr up) (Some (upload_init key fileBuffer)) (Inr res1)]
           \<and> publish rt cfg env outPath finalFile tr1 =
               (Inr (pub, fileBuffer),
                tr1 @ [ReadFile finalFile (Inr fileBuffer),
                       Fetch (JStr up) (Some (upload_init key fileBuffer)) (Inr res2)])
           \<and> ok res1 \<and> ok res2
           \<and> init_method (upload_init key fileBuffer) = ''POST''
           \<and> map_of (init_headers (upload_init key fileBuffer)) ''x-upsert'' = Some ''true''"
proof -
  from publish_spec [OF assms(2)] obtain base key up res1 where
    f: "SUPABASE_URL cfg = Some base" "SUPABASE_SERVICE_ROLE_KEY cfg = Some key"
      "uploadUrl rt cfg base outPath = Inr up" "publicUrl rt cfg base outPath = Inr pub"
      "tr1 = tr @ [ReadFile finalFile (Inr fileBuffer),
                   Fetch (JStr up) (Some (upload_init key fileBuffer)) (Inr res1)]"
      "ok res1"
    by auto
  have ne: "base \<noteq> []" "key \<noteq> []"
    using assms(2) f(1,2) by (auto simp: publish_def split: if_splits)
  have h: "map_of (init_headers (upload_init key fileBuffer)) ''x-upsert'' = Some ''true''"
    "init_method (upload_init key fileBuffer) = ''POST''"
    by (simp_all add: upload_init_def)
  let ?tr2 = "tr1 @ [ReadFile finalFile (Inr fileBuffer)]"
  from assms(1) h(1) obtain res2 where
    r2: "net_fetch env ?tr2 (JStr up) (Some (upload_init key fileBuffer)) = Inr res2" "ok res2"
    by blast
  have "publish rt cfg env outPath finalFile tr1 =
      (Inr (pub, fileBuffer),
       tr1 @ [ReadFile finalFile (Inr fileBuffer),
              Fetch (JStr up) (Some (upload_init key fileBuffer)) (Inr res2)])"
    using f(1-4) ne assms(3) r2 by (simp add: publish_def)
  with f(2,5,6) r2(2) h show ?thesis by blast
qed

theorem publish_again_same_url_witness:
  "publish sample_runtime sample_config storage_env (JStr ''stories/output.mp4'')
     ''/tmp/work-1/final.mp4'' [] = (Inr (sample_public_url, ''movie''), first_publish)
   \<and> (\<exists>res2. publish sample_runtime sample_config storage_env (JStr ''stories/output.mp4'')
          ''/tmp/work-1/final.mp4'' first_publish =
          (Inr (sample_public_url, ''movie''),
           first_publish @
           [ReadFile ''/tmp/work-1/final.mp4'' (Inr ''movie''),
            Fetch (JStr sample_upload_url) (Some (upload_init ''key'' ''movie'')) (Inr res2)])
        \<and> ok res2)
   \<and> net_fetch storage_env first_publish (JStr sample_upload_url)
        (Some \<lparr>init_method = ''POST'', init_headers = [], init_body = ''movie''\<rparr>) =
      Inr \<lparr>status = 409, res_body = Inr ''Duplicate''\<rparr>"
proof -
  have upsert: "\<forall>h url i. map_of (init_headers i) ''x-upsert'' = Some ''true'' \<longrightarrow>
             (\<exists>res. net_fetch storage_env h url (Some i) = Inr res \<and> ok res)"
    by (simp add: storage_env_def ok_def)
  have first: "publish sample_runtime sample_config storage_env (JStr ''stories/output.mp4'')
     ''/tmp/work-1/final.mp4'' [] = (Inr (sample_public_url, ''movie''), first_publish)"
    by (simp add: eval_defs storage_env_def first_publish_def sample_upload_url_def
        sample_public_url_def)
  have "read": "fs_readFile storage_env first_publish ''/tmp/work-1/final.mp4'' = Inr ''movie''"
    by (simp add: storage_env_def sample_env_def)
  have rejected: "net_fetch storage_env first_publish (JStr sample_upload_url)
        (Some \<lparr>init_method = ''POST'', init_headers = [], init_body = ''movie''\<rparr>) =
      Inr \<lparr>status = 409, res_body = Inr ''Duplicate''\<rparr>"
    by (simp add: storage_env_def first_publish_def ok_def)
  from publish_again_same_url [OF upsert first "read"] obtain key up res1 res2 where
    r: "SUPABASE_SERVICE_ROLE_KEY sample_config = Some key"
      "first_publish = [] @ [ReadFile ''/tmp/work-1/final.mp4'' (Inr ''movie''),
                          Fetch (JStr up) (Some (upload_init key ''movie'')) (Inr res1)]"
      "publish sample_runtime sample_config storage_env (JStr ''stories/output.mp4'')
          ''/tmp/work-1/final.mp4'' first_publish =
          (Inr (sample_public_url, ''movie''),
           first_publish @
           [ReadFile ''/tmp/work-1/final.mp4'' (Inr ''movie''),
            Fetch (JStr up) (Some (upload_init key ''movie'')) (Inr res2)])"
      "ok res2"
    by blast
  from r(1) have k: "key = ''key''" by (simp add: sample_config_def)
  from r(2) have u: "up = sample_upload_url" by (simp add: first_publish_def)
  from r(3,4) first rejected show ?thesis unfolding k u by blast
qed

section \<open>A request that succeeds\<close>

lemma to_json_elems_plain:
  "(\<And>x. x \<in> set xs \<Longrightarrow> json_plain x \<Longrightarrow> to_json x = x) \<Longrightarrow> list_all json_plain xs \<Longrightarrow>
   to_json_elems xs = xs"
  by (induction xs) auto

lemma to_json_members_plain:
  "(\<And>k v. (k, v) \<in> set kvs \<Longrightarrow> json_plain v \<Longrightarrow> to_json v = v) \<Longrightarrow>
   list_all (\<lambda>kv. json_plain (snd kv)) kvs \<Longrightarrow> to_json_members kvs = kvs"
proof (induction kvs)
  case Nil
  then show ?case by simp
next
  case (Cons kv kvs)
  obtain k v where kv: "kv = (k, v)" by (cases kv)
  with Cons.prems have "json_plain v" "to_json v = v" by auto
  moreover from this have "v \<noteq> JUndefined" by auto
  moreover have "to_json_members kvs = kvs"
    using Cons by auto
  ultimately show ?case using kv by simp
qed

lemma to_json_plain: "json_plain v \<Longrightarrow> to_json v = v"
proof (induction v)
  case (JNum n)
  then show ?case by (cases n) auto
next
  case (JArr xs)
  then show ?case by (auto intro: to_json_elems_plain)
next
  case (JObj kvs)
  have "to_json_members kvs = kvs"
  proof (rule to_json_members_plain)
    fix k v assume "(k, v) \<in> set kvs" "json_plain v"
    with JObj.IH [of "(k, v)" v] show "to_json v = v" by auto
  next
    from JObj.prems show "list_all (\<lambda>kv. json_plain (snd kv)) kvs" by simp
  qed
  then show ?case by simp
qed auto

lemma create_video_success:
  assumes "authorised cfg req"
    and "destructure (js_or (body req) (JObj [])) = Inr p"
    and "images p = JArr imgs" "imgs \<noteq> []" "truthy (audio p)"
    and "fetch_assets rt env imgs (audio p) [] = (Inr (wd, ls, af), tr1)"
    and "encode rt env wd ls af (width p) (height p) tr1 = (Inr final, tr2)"
    and "publish rt cfg env (outputPath p) final tr2 = (Inr (pub, buf), tr3)"
  shows "create_video rt cfg env req = (success_reply p (length imgs) pub buf, tr3)"
proof -
  have 1: "await (fetch_assets rt env imgs (audio p)) F [] = F (wd, ls, af) tr1"
    for F :: "_ \<Rightarrow> reply proc"
    using assms(6) by (rule await_Inr)
  have 2: "await (encode rt env wd ls af (width p) (height p)) F tr1 = F final tr2"
    for F :: "_ \<Rightarrow> reply proc"
    using assms(7) by (rule await_Inr)
  have 3: "await (publish rt cfg env (outputPath p) final) F tr2 = F (pub, buf) tr3"
    for F :: "_ \<Rightarrow> reply proc"
    using assms(8) by (rule await_Inr)
  have "pipeline rt cfg env imgs p [] = (Inr (success_reply p (length imgs) pub buf), tr3)"
    unfolding pipeline_def by (simp add: 1 2 3)
  then have "handler_try rt cfg env req [] = (Inr (success_reply p (length imgs) pub buf), tr3)"
    using assms(1-5) by (simp add: handler_try_def)
  then show ?thesis by (simp add: create_video_def)
qed

text \<open>
  C5 (as amended). A request that passes the token check and validation, and whose
  downloads, encoder passes and upload succeed, is answered 200. The body has
  \<^verbatim>\<open>success: true\<close>, \<^verbatim>\<open>frames\<close> the number of images, \<^verbatim>\<open>size\<close> the byte length of
  the body that was uploaded, \<^verbatim>\<open>url\<close> the upload url with \<^verbatim>\<open>public/\<close> inserted after
  \<^verbatim>\<open>/storage/v1/object/\<close>, and \<^verbatim>\<open>fps\<close>, \<^verbatim>\<open>width\<close> and \<^verbatim>\<open>height\<close> the request's
  values, or 25, 1920 and 1080 where the request has none, as \<^verbatim>\<open>JSON.stringify\<close>
  writes them: a value without \<^verbatim>\<open>undefined\<close>, non-finite numbers and negative zero
  is written as it is, a number that is not finite as \<^verbatim>\<open>null\<close>, negative zero as 0.
\<close>

theorem success_reply_shape:
  assumes "authorised cfg req"
    and "b = js_or (body req) (JObj [])"
    and "get_member b ''images'' = Inr (JArr imgs)" "imgs \<noteq> []"
    and "get_member b ''audio'' = Inr a" "truthy a"
    and "get_member b ''outputPath'' = Inr out"
    and "get_member b ''width'' = Inr w"
    and "get_member b ''height'' = Inr h"
    and "get_member b ''fps'' = Inr f"
    and "fetch_assets rt env imgs a [] = (Inr (wd, ls, af), tr1)"
    and "encode rt env wd ls af
           (if w = JUndefined then JNum (Fin 1920) else w)
           (if h = JUndefined then JNum (Fin 1080) else h) tr1 = (Inr final, tr2)"
    and "publish rt cfg env (if out = JUndefined then JStr ''stories/output.mp4'' else out)
           final tr2 = (Inr (pub, buf), tr3)"
  shows "create_video rt cfg env req =
           (\<lparr>status_code = 200,
             json = JObj
               [(''success'', JBool True),
                (''url'', JStr pub),
                (''size'', JNum (Fin (of_nat (length buf)))),
                (''frames'', JNum (Fin (of_nat (length imgs)))),
                (''fps'', to_json (if f = JUndefined then JNum (Fin 25) else f)),
                (''width'', to_json (if w = JUndefined then JNum (Fin 1920) else w)),
                (''height'', to_json (if h = JUndefined then JNum (Fin 1080) else h))]\<rparr>,
            tr3)
         \<and> (\<exists>base key up res tail.
               SUPABASE_URL cfg = Some base \<and> SUPABASE_SERVICE_ROLE_KEY cfg = Some key
               \<and> tr3 = tr2 @ [ReadFile final (Inr buf),
                              Fetch (JStr up) (Some (upload_init key buf)) (Inr res)]
               \<and> ok res \<and> init_body (upload_init key buf) = buf
               \<and> up = base @ ''/storage/v1/object/'' @ tail
               \<and> pub = base @ ''/storage/v1/object/public/'' @ tail)
         \<and> (\<forall>v. json_plain v \<longrightarrow> to_json v = v)
         \<and> to_json (JNum PosInfinity) = JNull \<and> to_json (JNum NegInfinity) = JNull
         \<and> to_json (JNum NaN) = JNull \<and> to_json (JNum NegZero) = JNum (Fin 0)"
proof -
  let ?p = "\<lparr>images = JArr imgs, audio = a,
             outputPath = (if out = JUndefined then JStr ''stories/output.mp4'' else out),
             width = (if w = JUndefined then JNum (Fin 1920) else w),
             height = (if h = JUndefined then JNum (Fin 1080) else h),
             fps = (if f = JUndefined then JNum (Fin 25) else f)\<rparr>"
  have d: "destructure (js_or (body req) (JObj [])) = Inr ?p"
    using assms(2,3,5,7-10) by (simp add: destructure_def default_to_def)
  have run: "create_video rt cfg env req = (success_reply ?p (length imgs) pub buf, tr3)"
    using assms(1) d _ assms(4) _ _ _ _
    by (rule create_video_success) (use assms in simp_all)
  have body: "success_reply ?p (length imgs) pub buf =
           \<lparr>status_code = 200,
             json = JObj
               [(''success'', JBool True),
                (''url'', JStr pub),
                (''size'', JNum (Fin (of_nat (length buf)))),
                (''frames'', JNum (Fin (of_nat (length imgs)))),
                (''fps'', to_json (if f = JUndefined then JNum (Fin 25) else f)),
                (''width'', to_json (if w = JUndefined then JNum (Fin 1920) else w)),
                (''height'', to_json (if h = JUndefined then JNum (Fin 1080) else h))]\<rparr>"
    by (simp add: success_reply_def res_json_def)
  from publish_spec [OF assms(13)] obtain base key up res where
    pb: "SUPABASE_URL cfg = Some base" "SUPABASE_SERVICE_ROLE_KEY cfg = Some key"
      "uploadUrl rt cfg base (if out = JUndefined then JStr ''stories/output.mp4'' else out)
         = Inr up"
      "publicUrl rt cfg base (if out = JUndefined then JStr ''stories/output.mp4'' else out)
         = Inr pub"
      "tr3 = tr2 @ [ReadFile final (Inr buf),
                    Fetch (JStr up) (Some (upload_init key buf)) (Inr res)]"
      "ok res"
    by auto
  from object_url_shape [OF pb(3) [unfolded uploadUrl_def]] obtain bk t k where
    u: "encodeURIComponent (bucket_name cfg) = Inr bk"
      "to_string rt (if out = JUndefined then JStr ''stories/output.mp4'' else out) = Inr t"
      "encodeURIComponent t = Inr k" "up = base @ ''/storage/v1/object/'' @ bk @ ''/'' @ k"
    by blast
  from object_url_shape [OF pb(4) [unfolded publicUrl_def]] u(1-3)
  have pu: "pub = base @ ''/storage/v1/object/public/'' @ bk @ ''/'' @ k"
    by auto
  have ib: "init_body (upload_init key buf) = buf"
    by (simp add: upload_init_def)
  have ex: "\<exists>base key up res tail.
               SUPABASE_URL cfg = Some base \<and> SUPABASE_SERVICE_ROLE_KEY cfg = Some key
               \<and> tr3 = tr2 @ [ReadFile final (Inr buf),
                              Fetch (JStr up) (Some (upload_init key buf)) (Inr res)]
               \<and> ok res \<and> init_body (upload_init key buf) = buf
               \<and> up = base @ ''/storage/v1/object/'' @ tail
               \<and> pub = base @ ''/storage/v1/object/public/'' @ tail"
    using pb(1,2,5,6) ib u(4) pu by blast
  from run body ex to_json_plain show ?thesis by simp
qed

lemma sample_publish:
  "publish sample_runtime sample_config sample_env (JStr ''stories/output.mp4'')
     ''/tmp/work-1700000000000/final.mp4''
     (sample_prepared @
      [Exec sample_render (ExecResult None [] []), Exec sample_mux (ExecResult None [] [])]) =
     (Inr (''https://db.example/storage/v1/object/public/videos/stories%2Foutput.mp4'', ''movie''),
      sample_published)"
  by (simp add: eval_defs sample_published_def)

theorem success_reply_shape_witness:
  "create_video sample_runtime sample_config sample_env sample_request =
     (\<lparr>status_code = 200,
       json = JObj
         [(''success'', JBool True),
          (''url'', JStr ''https://db.example/storage/v1/object/public/videos/stories%2Foutput.mp4''),
          (''size'', JNum (Fin 5)),
          (''frames'', JNum (Fin 2)),
          (''fps'', JNum (Fin 25)),
          (''width'', JNum (Fin 1920)),
          (''height'', JNum (Fin 1080))]\<rparr>,
      sample_published)
   \<and> to_json (JObj [(''a'', JArr [JNum (Fin 1), JStr ''x'', JNull])]) =
       JObj [(''a'', JArr [JNum (Fin 1), JStr ''x'', JNull])]"
proof -
  have a: "authorised sample_config sample_request"
    by (simp add: authorised_def sample_config_def)
  have m: "get_member (js_or (body sample_request) (JObj [])) ''images'' = Inr (JArr sample_images)"
    "sample_images \<noteq> []"
    "get_member (js_or (body sample_request) (JObj [])) ''audio'' = Inr (JStr ''http://a/a.mp3'')"
    "truthy (JStr ''http://a/a.mp3'')"
    "get_member (js_or (body sample_request) (JObj [])) ''outputPath'' = Inr JUndefined"
    "get_member (js_or (body sample_request) (JObj [])) ''width'' = Inr JUndefined"
    "get_member (js_or (body sample_request) (JObj [])) ''height'' = Inr JUndefined"
    "get_member (js_or (body sample_request) (JObj [])) ''fps'' = Inr JUndefined"
    by (simp_all add: sample_request_def sample_images_def js_or_def)
  have f: "fetch_assets sample_runtime sample_env sample_images (JStr ''http://a/a.mp3'') [] =
     (Inr (''/tmp/work-1700000000000'',
           [\<lparr>img_file = ''/tmp/work-1700000000000/img_000.png'', img_duration = Fin 2\<rparr>,
            \<lparr>img_file = ''/tmp/work-1700000000000/img_001.png'', img_duration = Fin 3\<rparr>],
           ''/tmp/work-1700000000000/audio.mp3''),
      butlast sample_prepared)"
    using sample_fetch_assets by (simp add: sample_params_def)
  have e: "encode sample_runtime sample_env ''/tmp/work-1700000000000''
     [\<lparr>img_file = ''/tmp/work-1700000000000/img_000.png'', img_duration = Fin 2\<rparr>,
      \<lparr>img_file = ''/tmp/work-1700000000000/img_001.png'', img_duration = Fin 3\<rparr>]
     ''/tmp/work-1700000000000/audio.mp3''
     (if JUndefined = JUndefined then JNum (Fin 1920) else JUndefined)
     (if JUndefined = JUndefined then JNum (Fin 1080) else JUndefined)
     (butlast sample_prepared) =
     (Inr ''/tmp/work-1700000000000/final.mp4'',
      sample_prepared @
      [Exec sample_render (ExecResult None [] []), Exec sample_mux (ExecResult None [] [])])"
    using sample_encode by (simp add: sample_params_def)
  have p: "publish sample_runtime sample_config sample_env
     (if JUndefined = JUndefined then JStr ''stories/output.mp4'' else JUndefined)
     ''/tmp/work-1700000000000/final.mp4''
     (sample_prepared @
      [Exec sample_render (ExecResult None [] []), Exec sample_mux (ExecResult None [] [])]) =
     (Inr (''https://db.example/storage/v1/object/public/videos/stories%2Foutput.mp4'', ''movie''),
      sample_published)"
    using sample_publish by simp
  have pl: "json_plain (JObj [(''a'', JArr [JNum (Fin 1), JStr ''x'', JNull])])"
    by simp
  from success_reply_shape [OF a refl m f e p] pl show ?thesis
    by (simp add: sample_images_def)
qed

lemma huge_fps_run:
  "create_video sample_runtime sample_config sample_env huge_fps_request =
     (\<lparr>status_code = 200,
       json = JObj
         [(''success'', JBool True),
          (''url'', JStr ''https://db.example/storage/v1/object/public/videos/stories%2Foutput.mp4''),
          (''size'', JNum (Fin 5)),
          (''frames'', JNum (Fin 2)),
          (''fps'', JNull),
          (''width'', JNum (Fin 1920)),
          (''height'', JNum (Fin 1080))]\<rparr>,
      sample_published)"
  by (simp add: eval_defs huge_fps_request_def sample_published_def)

text \<open>
  The claim C5 as first stated, \<^verbatim>\<open>fps\<close> echoing the request's value, fails for a value
  that JSON cannot carry: a request with \<^verbatim>\<open>"fps": 1e999\<close> is answered 200 with
  \<^verbatim>\<open>"fps": null\<close>.
\<close>

theorem unbounded_fps_counterexample:
  "get_member (js_or (body huge_fps_request) (JObj [])) ''fps'' = Inr (JNum PosInfinity)
   \<and> status_code (fst (create_video sample_runtime sample_config sample_env huge_fps_request)) = 200
   \<and> get_member
        (json (fst (create_video sample_runtime sample_config sample_env huge_fps_request)))
        ''fps'' = Inr JNull"
  by (simp add: huge_fps_run) (simp add: huge_fps_request_def js_or_def)

section \<open>Two requests in one millisecond\<close>

lemma other_run:
  "create_video sample_runtime sample_config sample_env other_request =
     (\<lparr>status_code = 200,
       json = JObj
         [(''success'', JBool True),
          (''url'', JStr ''https://db.example/storage/v1/object/public/videos/stories%2Foutput.mp4''),
          (''size'', JNum (Fin 5)),
          (''frames'', JNum (Fin 1)),
          (''fps'', JNum (Fin 25)),
          (''width'', JNum (Fin 1920)),
          (''height'', JNum (Fin 1080))]\<rparr>,
      [DateNow 1700000000000,
       Mkdir ''/tmp/work-1700000000000'' None,
       Fetch (JStr ''http://b/9.png'') None (Inr sample_response),
       WriteFile ''/tmp/work-1700000000000/img_000.png'' ''bytes'' None,
       Fetch (JStr ''http://b/b.mp3'') None (Inr sample_response),
       WriteFile ''/tmp/work-1700000000000/audio.mp3'' ''bytes'' None,
       WriteFile ''/tmp/work-1700000000000/list.txt''
         ''ffconcat version 1.0\<newline>file /tmp/work-1700000000000/img_000.png\<newline>duration 3\<newline>file /tmp/work-1700000000000/img_000.png\<newline>''
         None,
       Exec sample_render (ExecResult None [] []),
       Exec
         (mux_cmd ''/tmp/work-1700000000000/video.mp4'' ''/tmp/work-1700000000000/audio.mp3''
            ''/tmp/work-1700000000000/final.mp4'')
         (ExecResult None [] []),
       ReadFile ''/tmp/work-1700000000000/final.mp4'' (Inr ''movie''),
       Fetch (JStr ''https://db.example/storage/v1/object/videos/stories%2Foutput.mp4'')
         (Some (upload_init ''key'' ''movie'')) (Inr sample_response)])"
  by (simp add: eval_defs other_request_def)

text \<open>
  C4. The code does not keep workspaces apart: two different requests that read the
  clock in the same millisecond are given the same workspace directory, and each writes
  its own \<^verbatim>\<open>list.txt\<close> to the same path.
\<close>

theorem same_millisecond_collision:
  "sample_request \<noteq> other_request
   \<and> date_now sample_env [] = 1700000000000
   \<and> workspace_of (snd (create_video sample_runtime sample_config sample_env sample_request)) =
       Some ''/tmp/work-1700000000000''
   \<and> workspace_of (snd (create_video sample_runtime sample_config sample_env other_request)) =
       Some ''/tmp/work-1700000000000''
   \<and> WriteFile ''/tmp/work-1700000000000/list.txt''
         ''ffconcat version 1.0\<newline>file /tmp/work-1700000000000/img_000.png\<newline>duration 2\<newline>file /tmp/work-1700000000000/img_001.png\<newline>duration 3\<newline>file /tmp/work-1700000000000/img_001.png\<newline>''
         None
       \<in> set (snd (create_video sample_runtime sample_config sample_env sample_request))
   \<and> WriteFile ''/tmp/work-1700000000000/list.txt''
         ''ffconcat version 1.0\<newline>file /tmp/work-1700000000000/img_000.png\<newline>duration 3\<newline>file /tmp/work-1700000000000/img_000.png\<newline>''
         None
       \<in> set (snd (create_video sample_runtime sample_config sample_env other_request))"
proof -
  have "sample_request \<noteq> other_request"
    by (simp add: sample_request_def other_request_def)
  moreover have "date_now sample_env [] = 1700000000000"
    by (simp add: sample_env_def)
  moreover have "workspace_of
      (snd (create_video sample_runtime sample_config sample_env sample_request)) =
       Some ''/tmp/work-1700000000000''"
    by (simp add: sample_run sample_prepared_def)
  moreover have "workspace_of
      (snd (create_video sample_runtime sample_config sample_env other_request)) =
       Some ''/tmp/work-1700000000000''"
    by (simp add: other_run)
  moreover have "WriteFile ''/tmp/work-1700000000000/list.txt''
         ''ffconcat version 1.0\<newline>file /tmp/work-1700000000000/img_000.png\<newline>duration 2\<newline>file /tmp/work-1700000000000/img_001.png\<newline>duration 3\<newline>file /tmp/work-1700000000000/img_001.png\<newline>''
         None
       \<in> set (snd (create_video sample_runtime sample_config sample_env sample_request))"
    by (simp add: sample_run sample_prepared_def)
  moreover have "WriteFile ''/tmp/work-1700000000000/list.txt''
         ''ffconcat version 1.0\<newline>file /tmp/work-1700000000000/img_000.png\<newline>duration 3\<newline>file /tmp/work-1700000000000/img_000.png\<newline>''
         None
       \<in> set (snd (create_video sample_runtime sample_config sample_env other_request))"
    by (simp add: other_run)
  ultimately show ?thesis by blast
qed

end
